theory Spec2Isabelle
  imports Complex_Main
begin

section \<open>Data model of the input tracker (obs\_tracker\_V2.1.py)\<close>

text \<open>
  The tracker object of class \<open>OBSCompanionTracker\<close> is a record of its attributes.
  The part of the world its methods act on is carried in the same record: the contents of
  the log files by path, the file handles that are open, the close operations performed so
  far, the lines held in the buffer of the open file object, and the listener threads that
  are running. Clock readings, the outcome of every fallible library call and the values
  delivered by the devices are inputs of the functions: the methods read them from the
  environment.

  Python floats (the seconds of \<open>time.perf_counter()\<close>, \<open>time.time()\<close> and
  \<open>time.sleep\<close>, the axis values of the gamepad) are rationals here, so the rounding
  of float arithmetic is not followed: a time stamp can differ from the program's in its
  last decimal. Paths are strings; \<open>pathlib\<close>'s normalisation of their spelling is not
  followed either.
\<close>

datatype jval = JInt int | JNum rat | JStr string | JBool bool

type_synonym details = "(string \<times> jval) list"

record log_entry =
  timestamp :: rat
  absolute_time :: rat
  event_type :: string
  details :: details

datatype source = MouseSrc | KeyboardSrc | GamepadSrc

datatype exn = OSError | RuntimeError | PygameError

datatype 'a result = Returned 'a | Raised exn

record tracker =
  recording :: bool
  start_time :: "rat option"
  log_file :: "string option"
  mouse_listener :: "nat option"
  keyboard_listener :: "nat option"
  last_mouse_pos :: "(int \<times> int) option"
  current_log_path :: "string option"
  obs_connected :: bool
  gamepad_enabled :: bool
  save_dir :: string
  include_mouse_position :: bool
  event_count :: int
  mouse_count :: int
  keyboard_count :: int
  gamepad_count :: int
  gp_tracking :: bool
  gp_joystick :: bool
  pygame_ready :: bool
  pynput_available :: bool
  pygame_available :: bool
  disk :: "string \<Rightarrow> log_entry list option"
  pending :: "log_entry list"
  handles :: "string list"
  closes :: "string list"
  running :: "(nat \<times> source) list"
  next_obj :: nat

text \<open>
  \<open>log_file\<close> holds the open file object, named by its path, and \<open>pending\<close> the
  lines that object has taken with \<open>write\<close> and not yet passed to the file: a
  \<open>flush\<close> that fails leaves them there, and the next one that succeeds writes them.
  A file object that is replaced is not followed further. \<open>mouse_listener\<close> and
  \<open>keyboard_listener\<close> hold references to listener objects, \<open>next_obj\<close> is the next
  fresh reference and \<open>running\<close> lists the listener and gamepad threads that are alive.
  \<open>gp_tracking\<close>, \<open>gp_joystick\<close> and \<open>pygame_ready\<close> are the attributes
  \<open>tracking\<close>, \<open>joystick\<close> (set or \<open>None\<close>) and \<open>pygame_ready\<close> of the
  \<open>WorkingGamepadTracker\<close>; \<open>pynput_available\<close> and \<open>pygame_available\<close> are the
  module constants. \<open>include_mouse_position\<close> is the configuration switch read by
  \<open>on_mouse_move\<close>.
\<close>

text \<open>What one call of \<open>log_event\<close> reads from the environment: the two clocks and
  whether the \<open>flush\<close> that follows the \<open>write\<close> succeeds.\<close>

record io =
  perf_now :: rat
  wall_now :: rat
  write_ok :: bool

subsection \<open>Strings\<close>

definition startswith :: "string \<Rightarrow> string \<Rightarrow> bool" where
  "startswith s p = (take (length p) s = p)"

text \<open>\<open>s.replace(old, new)\<close>: every non-overlapping occurrence, from the left.\<close>

function str_replace :: "string \<Rightarrow> string \<Rightarrow> string \<Rightarrow> string" where
  "str_replace old new [] = (if old = [] then new else [])"
| "str_replace old new (c # cs) =
     (if old = [] then new @ c # str_replace old new cs
      else if take (length old) (c # cs) = old
        then new @ str_replace old new (drop (length old) (c # cs))
      else c # str_replace old new cs)"
  by pat_completeness auto
termination
  by (relation "measure (\<lambda>(old, new, s). length s)") auto

text \<open>Truthiness of the two attributes \<open>log_event\<close> tests: a file object is always
  true, a float is true unless it is zero.\<close>

definition truthy_time :: "rat option \<Rightarrow> bool" where
  "truthy_time t = (case t of None \<Rightarrow> False | Some v \<Rightarrow> v \<noteq> 0)"

text \<open>\<open>round(x, 6)\<close> in exact arithmetic: to the nearest multiple of \<open>10^-6\<close>, ties to
  the even one.\<close>

definition round6 :: "rat \<Rightarrow> rat" where
  "round6 x =
     (let y = x * 1000000; f = \<lfloor>y\<rfloor>; d = y - of_int f
      in of_int (if d < 1 / 2 then f else if 1 / 2 < d then f + 1
                 else if even f then f else f + 1) / 1000000)"

section \<open>The record path\<close>

definition bump_counters :: "tracker \<Rightarrow> string \<Rightarrow> tracker" where
  "bump_counters s ty =
     (let s1 = s\<lparr>event_count := event_count s + 1\<rparr>
      in if startswith ty ''Mouse'' then s1\<lparr>mouse_count := mouse_count s1 + 1\<rparr>
         else if startswith ty ''Key'' then s1\<lparr>keyboard_count := keyboard_count s1 + 1\<rparr>
         else if startswith ty ''gamepad'' then s1\<lparr>gamepad_count := gamepad_count s1 + 1\<rparr>
         else s1)"

definition make_entry :: "tracker \<Rightarrow> string \<Rightarrow> details \<Rightarrow> io \<Rightarrow> log_entry" where
  "make_entry s ty d env =
     (let elapsed = perf_now env - the (start_time s)
      in \<lparr>timestamp = round6 elapsed, absolute_time = wall_now env,
          event_type = ty, details = d\<rparr>)"

text \<open>\<open>flush\<close>: the lines of the buffer go to the file, in order.\<close>

definition flush_file :: "tracker \<Rightarrow> string \<Rightarrow> tracker" where
  "flush_file s p =
     s\<lparr>disk := (disk s)(p \<mapsto> (case disk s p of None \<Rightarrow> [] | Some ls \<Rightarrow> ls) @ pending s),
       pending := []\<rparr>"

text \<open>\<open>write\<close> puts the line into the buffer of the file object, \<open>flush\<close> passes the
  buffer to the file, and only then the counters move. A failing \<open>flush\<close> raises out of
  \<open>log_event\<close>, which has no handler: the counters are not reached and the line stays
  in the buffer.\<close>

definition log_event :: "tracker \<Rightarrow> string \<Rightarrow> details \<Rightarrow> io \<Rightarrow> unit result \<times> tracker" where
  "log_event s ty d env =
     (case log_file s of
        None \<Rightarrow> (Returned (), s)
      | Some p \<Rightarrow>
          if truthy_time (start_time s) then
            (let log_entry = make_entry s ty d env;
                 s1 = s\<lparr>pending := pending s @ [log_entry]\<rparr>
             in if write_ok env
                then (Returned (), bump_counters (flush_file s1 p) ty)
                else (Raised OSError, s1))
          else (Returned (), s))"

subsection \<open>Mouse and keyboard callbacks\<close>

definition on_mouse_move :: "tracker \<Rightarrow> int \<Rightarrow> int \<Rightarrow> io \<Rightarrow> unit result \<times> tracker" where
  "on_mouse_move s x y env =
     (if \<not> recording s then (Returned (), s)
      else
        let seed = (\<lambda>t. t\<lparr>last_mouse_pos := Some (x, y)\<rparr>)
        in case last_mouse_pos s of
             None \<Rightarrow> (Returned (), seed s)
           | Some (lx, ly) \<Rightarrow>
               let delta_x = x - lx; delta_y = y - ly
               in if 0 < \<bar>delta_x\<bar> \<or> 0 < \<bar>delta_y\<bar> then
                    (let d0 = [(''dx'', JInt delta_x), (''dy'', JInt delta_y)];
                         d = (if include_mouse_position s
                              then d0 @ [(''x'', JInt x), (''y'', JInt y)] else d0)
                     in case log_event s ''MouseDelta'' d env of
                          (Raised e, s') \<Rightarrow> (Raised e, s')
                        | (Returned u, s') \<Rightarrow> (Returned (), seed s'))
                  else (Returned (), seed s))"

text \<open>A mouse button arrives as its printed form \<open>str(button)\<close>.\<close>

definition on_mouse_click ::
  "tracker \<Rightarrow> int \<Rightarrow> int \<Rightarrow> string \<Rightarrow> bool \<Rightarrow> io \<Rightarrow> unit result \<times> tracker" where
  "on_mouse_click s x y button pressed env =
     (if \<not> recording s then (Returned (), s)
      else log_event s ''MouseClick''
             [(''button'', JStr (str_replace ''Button.'' '''' button)),
              (''action'', JStr (if pressed then ''pressed'' else ''released'')),
              (''x'', JInt x), (''y'', JInt y)] env)"

text \<open>A key arrives with its \<open>char\<close> attribute (\<open>None\<close> when the attribute is missing
  or is \<open>None\<close>) and its printed form \<open>str(key)\<close>. The handlers catch
  \<open>AttributeError\<close> only, which nothing in the guarded block raises here, so an error of
  \<open>log_event\<close> leaves the handler.\<close>

record pkey =
  key_char :: "string option"
  key_repr :: string

definition key_str :: "pkey \<Rightarrow> string" where
  "key_str k =
     (case key_char k of
        Some c \<Rightarrow> if c \<noteq> [] then c else str_replace ''Key.'' '''' (key_repr k)
      | None \<Rightarrow> str_replace ''Key.'' '''' (key_repr k))"

definition on_key_press :: "tracker \<Rightarrow> pkey \<Rightarrow> io \<Rightarrow> unit result \<times> tracker" where
  "on_key_press s k env =
     (if \<not> recording s then (Returned (), s)
      else log_event s ''KeyDown'' [(''key'', JStr (key_str k))] env)"

definition on_key_release :: "tracker \<Rightarrow> pkey \<Rightarrow> io \<Rightarrow> unit result \<times> tracker" where
  "on_key_release s k env =
     (if \<not> recording s then (Returned (), s)
      else log_event s ''KeyUp'' [(''key'', JStr (key_str k))] env)"

subsection \<open>Gamepad tracker\<close>

definition log_gamepad_event ::
  "tracker \<Rightarrow> string \<Rightarrow> details \<Rightarrow> io \<Rightarrow> unit result \<times> tracker" where
  "log_gamepad_event s ety d env =
     (if recording s then log_event s (''gamepad_'' @ ety) d env else (Returned (), s))"

definition get_gamepad_count :: "tracker \<Rightarrow> nat \<Rightarrow> nat" where
  "get_gamepad_count s joysticks = (if \<not> pygame_ready s then 0 else joysticks)"

text \<open>What \<open>start_tracking\<close> meets: no joystick (or an error before one is taken),
  a joystick whose \<open>init\<close> raises after the attribute was assigned, a working one, or a
  working one with a polling thread that cannot be started.\<close>

datatype gp_connect = GpAbsent | GpInitError | GpConnected | GpThreadError

definition connect_gamepad :: "tracker \<Rightarrow> gp_connect \<Rightarrow> bool \<times> tracker" where
  "connect_gamepad s g =
     (if \<not> pygame_ready s then (False, s)
      else case g of
             GpAbsent \<Rightarrow> (False, s)
           | GpInitError \<Rightarrow> (False, s\<lparr>gp_joystick := True\<rparr>)
           | GpConnected \<Rightarrow> (True, s\<lparr>gp_joystick := True\<rparr>)
           | GpThreadError \<Rightarrow> (True, s\<lparr>gp_joystick := True\<rparr>))"

text \<open>\<open>tracking\<close> is set before the thread is started; \<open>start_tracking\<close> has no
  handler, so an error of the thread's \<open>start\<close> leaves it.\<close>

definition start_tracking :: "tracker \<Rightarrow> gp_connect \<Rightarrow> bool result \<times> tracker" where
  "start_tracking s g =
     (if \<not> pygame_ready s then (Returned False, s)
      else case connect_gamepad s g of
             (False, s1) \<Rightarrow> (Returned False, s1)
           | (True, s1) \<Rightarrow>
               let s2 = s1\<lparr>gp_tracking := True\<rparr>
               in if g = GpThreadError then (Raised RuntimeError, s2)
                  else (Returned True,
                        s2\<lparr>running := running s2 @ [(next_obj s2, GamepadSrc)],
                           next_obj := Suc (next_obj s2)\<rparr>))"

text \<open>Clearing \<open>tracking\<close> ends every gamepad loop, whichever thread runs it.\<close>

definition stop_tracking :: "tracker \<Rightarrow> tracker" where
  "stop_tracking s =
     (if \<not> gp_tracking s then s
      else s\<lparr>gp_tracking := False,
              running := filter (\<lambda>(i, k). k \<noteq> GamepadSrc) (running s),
              gp_joystick := False\<rparr>)"

subsection \<open>Gamepad polling loop\<close>

text \<open>\<open>str\<close> of an integer and \<open>int\<close> of a float (towards zero).\<close>

function str_nat :: "nat \<Rightarrow> string" where
  "str_nat n =
     (if n < 10 then [''0123456789'' ! n]
      else str_nat (n div 10) @ [''0123456789'' ! (n mod 10)])"
  by pat_completeness auto
termination
  by (relation "measure (\<lambda>n. n)") auto

definition str_int :: "int \<Rightarrow> string" where
  "str_int i = (if i < 0 then ''-'' @ str_nat (nat (- i)) else str_nat (nat i))"

definition py_int :: "rat \<Rightarrow> int" where
  "py_int x = (if 0 \<le> x then \<lfloor>x\<rfloor> else \<lceil>x\<rceil>)"

fun join :: "string \<Rightarrow> string list \<Rightarrow> string" where
  "join sep [] = []"
| "join sep [x] = x"
| "join sep (x # y # ys) = x @ sep @ join sep (y # ys)"

definition button_names :: "(int \<times> string) list" where
  "button_names =
     [(0, ''a_button''), (1, ''b_button''), (2, ''x_button''), (3, ''y_button''),
      (4, ''lb_shoulder''), (5, ''rb_shoulder''), (6, ''back_button''), (7, ''start_button''),
      (8, ''left_stick_press''), (9, ''right_stick_press'')]"

definition button_name :: "int \<Rightarrow> string" where
  "button_name b =
     (case map_of button_names b of Some n \<Rightarrow> n | None \<Rightarrow> ''button_'' @ str_int b)"

definition hat_direction :: "int \<Rightarrow> int \<Rightarrow> string" where
  "hat_direction x y =
     (let d1 = (if y = 1 then [''up''] else if y = - 1 then [''down''] else []);
          d2 = (if x = 1 then [''right''] else if x = - 1 then [''left''] else []);
          directions = d1 @ d2
      in if directions \<noteq> [] then join ''_'' directions else ''neutral'')"

text \<open>The pygame events the loop looks at, and what the loop prints and sleeps.\<close>

datatype pg_event =
    QUIT
  | JOYBUTTONDOWN int
  | JOYBUTTONUP int
  | JOYAXISMOTION int rat
  | JOYHATMOTION int int int
  | OTHER

datatype gp_out = Print string | PrintLoopError exn | Slept rat

text \<open>One event of the \<open>for\<close> loop, with the environment of its \<open>log_event\<close> call.
  The result tells whether an exception left the branch.\<close>

fun gamepad_event :: "tracker \<Rightarrow> pg_event \<Rightarrow> io \<Rightarrow> unit result \<times> tracker \<times> gp_out list" where
  "gamepad_event s (JOYBUTTONDOWN b) env =
     (case log_gamepad_event s ''button''
             [(''button'', JStr (button_name b)), (''raw_code'', JInt b),
              (''state'', JStr ''press'')] env of
        (Raised x, s') \<Rightarrow> (Raised x, s', [])
      | (Returned u, s') \<Rightarrow>
          (Returned (), s',
           [Print (''Button press: '' @ button_name b @ '' ('' @ str_int b @ '')'')]))"
| "gamepad_event s (JOYBUTTONUP b) env =
     (case log_gamepad_event s ''button''
             [(''button'', JStr (button_name b)), (''raw_code'', JInt b),
              (''state'', JStr ''release'')] env of
        (r, s') \<Rightarrow> (r, s', []))"
| "gamepad_event s (JOYAXISMOTION axis v) env =
     (if 1 / 10 < \<bar>v\<bar> then
        (if axis < 4 then
           (case log_gamepad_event s ''stick''
                   [(''stick'', JStr (if axis < 2 then ''left_stick'' else ''right_stick'')),
                    (''axis'', JStr (if axis mod 2 = 0 then ''x'' else ''y'')),
                    (''value'', JInt (py_int (v * 32767))),
                    (''normalized'', JNum v)] env of
              (r, s') \<Rightarrow> (r, s', []))
         else
           (case log_gamepad_event s ''trigger''
                   [(''trigger'', JStr (if axis = 4 then ''left_trigger'' else ''right_trigger'')),
                    (''value'', JInt (max 0 (py_int ((v + 1) / 2 * 1023))))] env of
              (r, s') \<Rightarrow> (r, s', [])))
      else (Returned (), s, []))"
| "gamepad_event s (JOYHATMOTION hat x y) env =
     (case log_gamepad_event s ''dpad''
             [(''dpad'', JStr (''dpad_'' @ str_int hat)),
              (''direction'', JStr (hat_direction x y)),
              (''raw_x'', JInt x), (''raw_y'', JInt y)] env of
        (r, s') \<Rightarrow> (r, s', []))"
| "gamepad_event s QUIT env = (Returned (), s, [])"
| "gamepad_event s OTHER env = (Returned (), s, [])"

text \<open>The \<open>for\<close> loop over the events of one turn: \<open>QUIT\<close> breaks it, an exception
  leaves it with the rest of the events unread.\<close>

fun gamepad_events ::
  "tracker \<Rightarrow> (pg_event \<times> io) list \<Rightarrow> unit result \<times> tracker \<times> gp_out list" where
  "gamepad_events s [] = (Returned (), s, [])"
| "gamepad_events s ((ev, env) # rest) =
     (if ev = QUIT then (Returned (), s, [])
      else case gamepad_event s ev env of
             (Raised x, s', out) \<Rightarrow> (Raised x, s', out)
           | (Returned u, s', out) \<Rightarrow>
               (case gamepad_events s' rest of (r, s'', out') \<Rightarrow> (r, s'', out @ out')))"

text \<open>What \<open>pygame.event.get()\<close> gives in one turn: an error or the events.\<close>

datatype gp_poll = EventsError | Events "(pg_event \<times> io) list"

text \<open>One turn of the \<open>while\<close> loop: the \<open>try\<close> block and its handler, which prints
  the error and sleeps longer.\<close>

definition gamepad_turn :: "tracker \<Rightarrow> gp_poll \<Rightarrow> tracker \<times> gp_out list" where
  "gamepad_turn s b =
     (case b of
        EventsError \<Rightarrow> (s, [PrintLoopError PygameError, Slept (1 / 10)])
      | Events evs \<Rightarrow>
          (case gamepad_events s evs of
             (Returned u, s', out) \<Rightarrow> (s', out @ [Slept (1 / 100)])
           | (Raised x, s', out) \<Rightarrow> (s', out @ [PrintLoopError x, Slept (1 / 10)])))"

text \<open>The loop runs over the polls of its turns, as long as \<open>tracking\<close> and
  \<open>joystick\<close> are set.\<close>

fun gamepad_turns :: "tracker \<Rightarrow> gp_poll list \<Rightarrow> tracker \<times> gp_out list" where
  "gamepad_turns s [] = (s, [])"
| "gamepad_turns s (b # bs) =
     (if gp_tracking s \<and> gp_joystick s then
        (case gamepad_turn s b of
           (s', out) \<Rightarrow> (case gamepad_turns s' bs of (s'', out') \<Rightarrow> (s'', out @ out')))
      else (s, [Print ''Gamepad monitoring loop ended'']))"

definition gamepad_loop :: "tracker \<Rightarrow> gp_poll list \<Rightarrow> tracker \<times> gp_out list" where
  "gamepad_loop s polls =
     (case gamepad_turns s polls of
        (s', out) \<Rightarrow>
          (s', Print ''Starting gamepad monitoring loop (using working test method)'' # out))"

section \<open>Session start and stop\<close>

text \<open>The constructor: nothing recorded, nothing open, nothing armed. The arguments are
  the module constants, the outcome of the pygame initialisation and the settings read by
  \<open>load_settings\<close>.\<close>

definition init_tracker :: "bool \<Rightarrow> bool \<Rightarrow> bool \<Rightarrow> bool \<Rightarrow> bool \<Rightarrow> string \<Rightarrow> tracker" where
  "init_tracker pynput pygame ready gp_enabled inc_pos dir =
     \<lparr>recording = False, start_time = None, log_file = None, mouse_listener = None,
      keyboard_listener = None, last_mouse_pos = None, current_log_path = None,
      obs_connected = False, gamepad_enabled = gp_enabled, save_dir = dir,
      include_mouse_position = inc_pos, event_count = 0, mouse_count = 0,
      keyboard_count = 0, gamepad_count = 0, gp_tracking = False, gp_joystick = False,
      pygame_ready = (pygame \<and> ready), pynput_available = pynput, pygame_available = pygame,
      disk = (\<lambda>p. None), pending = [], handles = [], closes = [], running = [],
      next_obj = 0\<rparr>"

text \<open>What one call of \<open>start_recording_sync\<close> reads from the environment, in the order
  of the calls: the formatted date, whether \<open>open\<close> succeeds, the two clocks and the
  printed start time, the number of joysticks, the environment of the \<open>log_event\<close> call,
  whether each listener constructor and each listener \<open>start\<close> succeeds, and what
  \<open>start_tracking\<close> meets.\<close>

record start_env =
  stamp :: string
  open_ok :: bool
  start_perf :: rat
  start_wall :: rat
  start_readable :: string
  joysticks :: nat
  start_io :: io
  mouse_ctor_ok :: bool
  keyboard_ctor_ok :: bool
  mouse_start_ok :: bool
  keyboard_start_ok :: bool
  gp :: gp_connect

definition log_path :: "tracker \<Rightarrow> start_env \<Rightarrow> string" where
  "log_path s e = save_dir s @ ''/'' @ ''input_log_'' @ stamp e @ ''.jsonl''"

definition session_info :: "tracker \<Rightarrow> start_env \<Rightarrow> details" where
  "session_info s e =
     (let info = [(''obs_sync'', JBool True),
                  (''start_time_unix'', JNum (start_wall e)),
                  (''start_time_readable'', JStr (start_readable e)),
                  (''obs_connected'', JBool (obs_connected s)),
                  (''pynput_available'', JBool (pynput_available s)),
                  (''gamepad_enabled'', JBool (gamepad_enabled s)),
                  (''pygame_available'', JBool (pygame_available s))]
      in if gamepad_enabled s \<and> pygame_available s
         then info @ [(''gamepad_count'', JInt (int (get_gamepad_count s (joysticks e))))]
         else info)"

text \<open>The block under \<open>if PYNPUT_AVAILABLE\<close>: both listeners are constructed and
  assigned, then started, mouse first. The boolean tells whether the block ran through
  without an exception.\<close>

definition arm_listeners :: "tracker \<Rightarrow> start_env \<Rightarrow> bool \<times> tracker" where
  "arm_listeners s e =
     (if \<not> pynput_available s then (True, s)
      else if \<not> mouse_ctor_ok e then (False, s)
      else
        let m = next_obj s;
            s1 = s\<lparr>mouse_listener := Some m, next_obj := Suc m\<rparr>
        in if \<not> keyboard_ctor_ok e then (False, s1)
           else
             let k = next_obj s1;
                 s2 = s1\<lparr>keyboard_listener := Some k, next_obj := Suc k\<rparr>
             in if \<not> mouse_start_ok e then (False, s2)
                else
                  let s3 = s2\<lparr>running := running s2 @ [(m, MouseSrc)]\<rparr>
                  in if \<not> keyboard_start_ok e then (False, s3)
                     else (True, s3\<lparr>running := running s3 @ [(k, KeyboardSrc)]\<rparr>))"

definition reset_counters :: "tracker \<Rightarrow> tracker" where
  "reset_counters s =
     s\<lparr>last_mouse_pos := None, event_count := 0, mouse_count := 0,
       keyboard_count := 0, gamepad_count := 0\<rparr>"

text \<open>Every exception inside the \<open>try\<close> block ends in the handler that prints and
  returns \<open>False\<close>; the assignments made before it stay. \<open>open\<close> gives a new file
  object, with an empty buffer, on a file that is empty.\<close>

definition start_recording_sync :: "tracker \<Rightarrow> start_env \<Rightarrow> bool \<times> tracker" where
  "start_recording_sync s e =
     (if recording s then (False, s)
      else
        let p = log_path s e;
            s1 = s\<lparr>current_log_path := Some p\<rparr>
        in if \<not> open_ok e then (False, s1)
           else
             let s2 = s1\<lparr>log_file := Some p, disk := (disk s1)(p \<mapsto> []), pending := [],
                        handles := handles s1 @ [p]\<rparr>;
                 s3 = s2\<lparr>start_time := Some (start_perf e)\<rparr>
             in case log_event s3 ''SessionStart'' (session_info s3 e) (start_io e) of
                  (Raised x, s4) \<Rightarrow> (False, s4)
                | (Returned u, s4) \<Rightarrow>
                    (case arm_listeners (reset_counters s4) e of
                       (False, s5) \<Rightarrow> (False, s5)
                     | (True, s5) \<Rightarrow>
                         if gamepad_enabled s5 then
                           (case start_tracking s5 (gp e) of
                              (Raised x, s6) \<Rightarrow> (False, s6)
                            | (Returned b, s6) \<Rightarrow> (True, s6\<lparr>recording := True\<rparr>))
                         else (True, s5\<lparr>recording := True\<rparr>)))"

text \<open>What \<open>stop_recording\<close> reads: the clock for the duration and the environment of
  its \<open>log_event\<close> call.\<close>

record stop_env =
  dur_perf :: rat
  stop_io :: io

definition session_end :: "tracker \<Rightarrow> stop_env \<Rightarrow> details" where
  "session_end s e =
     [(''total_events'', JInt (event_count s)),
      (''mouse_events'', JInt (mouse_count s)),
      (''keyboard_events'', JInt (keyboard_count s)),
      (''gamepad_events'', JInt (gamepad_count s)),
      (''duration_seconds'',
         JNum (if truthy_time (start_time s) then dur_perf e - the (start_time s) else 0))]"

definition stop_listener :: "tracker \<Rightarrow> nat \<Rightarrow> tracker" where
  "stop_listener s i = s\<lparr>running := filter (\<lambda>(j, k). j \<noteq> i) (running s)\<rparr>"

text \<open>\<open>close\<close> passes what the buffer still holds to the file; it is taken not to
  fail.\<close>

definition close_log :: "tracker \<Rightarrow> tracker" where
  "close_log s =
     (case log_file s of
        None \<Rightarrow> s
      | Some p \<Rightarrow> (flush_file s p)\<lparr>handles := remove1 p (handles s),
                                   closes := closes s @ [p], log_file := None\<rparr>)"

definition stop_recording :: "tracker \<Rightarrow> stop_env \<Rightarrow> tracker" where
  "stop_recording s e =
     (if \<not> recording s then s
      else
        let s1 = s\<lparr>recording := False\<rparr>
        in case (case log_file s1 of
                   None \<Rightarrow> (Returned (), s1)
                 | Some p \<Rightarrow> log_event s1 ''SessionEnd'' (session_end s1 e) (stop_io e)) of
             (Raised x, s2) \<Rightarrow> s2
           | (Returned u, s2) \<Rightarrow>
               let s3 = (case mouse_listener s2 of
                           None \<Rightarrow> s2
                         | Some i \<Rightarrow> (stop_listener s2 i)\<lparr>mouse_listener := None\<rparr>);
                   s4 = (case keyboard_listener s3 of
                           None \<Rightarrow> s3
                         | Some i \<Rightarrow> (stop_listener s3 i)\<lparr>keyboard_listener := None\<rparr>);
                   s5 = stop_tracking s4
               in close_log s5)"

section \<open>Runs of the tracker\<close>

text \<open>One call into the tracker from the monitor, the GUI or a device thread.\<close>

datatype cmd =
    Start start_env
  | Stop stop_env
  | MouseMove int int io
  | MouseClick int int string bool io
  | KeyPress pkey io
  | KeyRelease pkey io
  | Gamepad string details io

fun step :: "tracker \<Rightarrow> cmd \<Rightarrow> tracker" where
  "step s (Start e) = snd (start_recording_sync s e)"
| "step s (Stop e) = stop_recording s e"
| "step s (MouseMove x y env) = snd (on_mouse_move s x y env)"
| "step s (MouseClick x y b pr env) = snd (on_mouse_click s x y b pr env)"
| "step s (KeyPress k env) = snd (on_key_press s k env)"
| "step s (KeyRelease k env) = snd (on_key_release s k env)"
| "step s (Gamepad ety d env) = snd (log_gamepad_event s ety d env)"

fun run :: "tracker \<Rightarrow> cmd list \<Rightarrow> tracker" where
  "run s [] = s"
| "run s (c # cs) = run (step s c) cs"

fun is_stop :: "cmd \<Rightarrow> bool" where
  "is_stop (Stop e) = True"
| "is_stop c = False"

fun is_mouse_move :: "cmd \<Rightarrow> bool" where
  "is_mouse_move (MouseMove x y env) = True"
| "is_mouse_move c = False"

text \<open>A call enters Recording when it is a start that returns \<open>True\<close>.\<close>

fun enters_recording :: "tracker \<Rightarrow> cmd \<Rightarrow> bool" where
  "enters_recording s (Start e) = fst (start_recording_sync s e)"
| "enters_recording s c = False"

section \<open>The monitor loop\<close>

text \<open>One turn of \<open>_obs_monitor_loop\<close> reads the loop condition
  (\<open>should_monitor and obs_connected\<close>) and then meets no client, a status request that
  raises, or a status. The loop is run over the observations of its turns; it ends at the
  first false condition. What it does is the list of its calls.\<close>

datatype poll = NoClient | PollFail | PollOk bool

datatype action = CallStart | CallStop | Sleep rat

fun monitor_turn :: "bool \<Rightarrow> poll \<Rightarrow> bool \<times> action list" where
  "monitor_turn last_recording_state NoClient = (last_recording_state, [Sleep (1 / 2)])"
| "monitor_turn last_recording_state PollFail = (last_recording_state, [Sleep 2])"
| "monitor_turn last_recording_state (PollOk is_recording) =
     (if is_recording \<noteq> last_recording_state
      then (is_recording, [if is_recording then CallStart else CallStop, Sleep (1 / 2)])
      else (last_recording_state, [Sleep (1 / 2)]))"

fun monitor_from :: "bool \<Rightarrow> (bool \<times> poll) list \<Rightarrow> bool \<times> action list" where
  "monitor_from last_recording_state [] = (last_recording_state, [])"
| "monitor_from last_recording_state ((cond, p) # rest) =
     (if \<not> cond then (last_recording_state, [])
      else
        let (l, acts) = monitor_turn last_recording_state p;
            (l', acts') = monitor_from l rest
        in (l', acts @ acts'))"

definition obs_monitor_loop :: "(bool \<times> poll) list \<Rightarrow> bool \<times> action list" where
  "obs_monitor_loop turns = monitor_from False turns"

section \<open>Notions used to state the properties\<close>

text \<open>The categories of the entries the input handlers write.\<close>

definition is_mouse_entry :: "log_entry \<Rightarrow> bool" where
  "is_mouse_entry r = (event_type r = ''MouseDelta'' \<or> event_type r = ''MouseClick'')"

definition is_keyboard_entry :: "log_entry \<Rightarrow> bool" where
  "is_keyboard_entry r = (event_type r = ''KeyDown'' \<or> event_type r = ''KeyUp'')"

definition is_gamepad_entry :: "log_entry \<Rightarrow> bool" where
  "is_gamepad_entry r = (take 8 (event_type r) = ''gamepad_'')"

definition is_input_entry :: "log_entry \<Rightarrow> bool" where
  "is_input_entry r = (is_mouse_entry r \<or> is_keyboard_entry r \<or> is_gamepad_entry r)"

definition field :: "string \<Rightarrow> log_entry \<Rightarrow> jval option" where
  "field k r = map_of (details r) k"


text \<open>The event types the handlers log.\<close>

definition input_type :: "string \<Rightarrow> bool" where
  "input_type ty =
     (ty = ''MouseDelta'' \<or> ty = ''MouseClick'' \<or> ty = ''KeyDown'' \<or> ty = ''KeyUp'' \<or>
      (\<exists>ety. ty = ''gamepad_'' @ ety))"

text \<open>Whether the flush of a call succeeds, for the calls that can write.\<close>

fun cmd_write_ok :: "cmd \<Rightarrow> bool" where
  "cmd_write_ok (MouseMove x y env) = write_ok env"
| "cmd_write_ok (MouseClick x y b pr env) = write_ok env"
| "cmd_write_ok (KeyPress k env) = write_ok env"
| "cmd_write_ok (KeyRelease k env) = write_ok env"
| "cmd_write_ok (Gamepad ety d env) = write_ok env"
| "cmd_write_ok c = True"

text \<open>The session a run is in when no flush has failed: recording into the file \<open>p\<close>,
  whose first entry is \<open>first\<close> and whose later entries \<open>mids\<close> are input entries that
  the counters count, with nothing left in the buffer; \<open>cl\<close> are the closes performed so
  far.\<close>

definition in_session ::
  "string \<Rightarrow> log_entry \<Rightarrow> string list \<Rightarrow> tracker \<Rightarrow> log_entry list \<Rightarrow> bool" where
  "in_session p first cl s mids =
     (recording s \<and> log_file s = Some p \<and> truthy_time (start_time s) \<and>
      disk s p = Some (first # mids) \<and> pending s = [] \<and> closes s = cl \<and>
      event_count s = int (length mids) \<and>
      mouse_count s = int (length (filter is_mouse_entry mids)) \<and>
      keyboard_count s = int (length (filter is_keyboard_entry mids)) \<and>
      gamepad_count s = int (length (filter is_gamepad_entry mids)) \<and>
      list_all is_input_entry mids)"

text \<open>The session a run is in whatever its flushes met: the file and the buffer behind
  it hold \<open>first\<close> and then the input entries \<open>mids\<close>, \<open>first\<close> being in the file.\<close>

definition session_layout ::
  "string \<Rightarrow> log_entry \<Rightarrow> string list \<Rightarrow> tracker \<Rightarrow> log_entry list \<Rightarrow> bool" where
  "session_layout p first cl s mids =
     (recording s \<and> log_file s = Some p \<and> truthy_time (start_time s) \<and> closes s = cl \<and>
      list_all is_input_entry mids \<and>
      (case disk s p of
         None \<Rightarrow> False
       | Some ls \<Rightarrow> ls \<noteq> [] \<and> ls @ pending s = first # mids))"

text \<open>A session whose clock read zero at its start: it records, and writes nothing.\<close>

definition silent_session :: "string \<Rightarrow> tracker \<Rightarrow> bool" where
  "silent_session p s =
     (recording s \<and> log_file s = Some p \<and> \<not> truthy_time (start_time s) \<and>
      disk s p = Some [] \<and> pending s = [])"





text \<open>The payload \<open>on_mouse_move\<close> builds for a move from \<open>(lx, ly)\<close> to
  \<open>(x, y)\<close>.\<close>

definition delta_details :: "tracker \<Rightarrow> int \<Rightarrow> int \<Rightarrow> int \<Rightarrow> int \<Rightarrow> details" where
  "delta_details s lx ly x y =
     (if include_mouse_position s
      then [(''dx'', JInt (x - lx)), (''dy'', JInt (y - ly)), (''x'', JInt x), (''y'', JInt y)]
      else [(''dx'', JInt (x - lx)), (''dy'', JInt (y - ly))])"





text \<open>The edges of a sequence of recorder states as the specification words them: a
  start on each change from false to true, a stop on each change from true to false.\<close>

fun edges :: "bool \<Rightarrow> bool list \<Rightarrow> action list" where
  "edges prev [] = []"
| "edges prev (b # bs) =
     (if \<not> prev \<and> b then CallStart # edges b bs
      else if prev \<and> \<not> b then CallStop # edges b bs
      else edges b bs)"

fun is_call :: "action \<Rightarrow> bool" where
  "is_call (Sleep d) = False"
| "is_call a = True"

definition calls :: "action list \<Rightarrow> action list" where
  "calls acts = filter is_call acts"

definition polled :: "bool list \<Rightarrow> (bool \<times> poll) list" where
  "polled bs = map (\<lambda>b. (True, PollOk b)) bs"

text \<open>The tracker after the file is opened and the start time taken, before the
  metadata entry is written.\<close>

definition opened :: "tracker \<Rightarrow> start_env \<Rightarrow> tracker" where
  "opened s e =
     s\<lparr>current_log_path := Some (log_path s e), log_file := Some (log_path s e),
       disk := (disk s)(log_path s e \<mapsto> []), pending := [],
       handles := handles s @ [log_path s e], start_time := Some (start_perf e)\<rparr>"

subsection \<open>A concrete environment\<close>

definition io_at :: "rat \<Rightarrow> bool \<Rightarrow> io" where
  "io_at t ok = \<lparr>perf_now = t, wall_now = 1000 + t, write_ok = ok\<rparr>"

definition demo_start :: start_env where
  "demo_start =
     \<lparr>stamp = ''20250101_120000'', open_ok = True, start_perf = 1, start_wall = 1001,
      start_readable = ''2025-01-01T12:00:00'', joysticks = 1, start_io = io_at 1 True,
      mouse_ctor_ok = True, keyboard_ctor_ok = True, mouse_start_ok = True,
      keyboard_start_ok = True, gp = GpConnected\<rparr>"

definition demo_stop :: stop_env where
  "demo_stop = \<lparr>dur_perf = 9, stop_io = io_at 9 True\<rparr>"

definition demo_tracker :: tracker where
  "demo_tracker = init_tracker True True True True True ''logs''"

definition demo_recording :: tracker where
  "demo_recording = snd (start_recording_sync demo_tracker demo_start)"

definition demo_inputs :: "cmd list" where
  "demo_inputs =
     [MouseMove 0 0 (io_at 2 True), MouseMove 1 0 (io_at 3 True),
      KeyPress \<lparr>key_char = Some ''a'', key_repr = ''a''\<rparr> (io_at 4 True)]"


definition demo_path :: string where
  "demo_path = log_path demo_tracker demo_start"

definition demo_second :: tracker where
  "demo_second =
     run demo_tracker [Start demo_start, MouseMove 100 100 (io_at 2 True), Stop demo_stop]"

definition demo_kbd_fail :: start_env where
  "demo_kbd_fail = demo_start\<lparr>keyboard_start_ok := False\<rparr>"

definition demo_open_fail :: start_env where
  "demo_open_fail = demo_start\<lparr>open_ok := False\<rparr>"

definition demo_lossy :: "cmd list" where
  "demo_lossy =
     [KeyPress \<lparr>key_char = Some ''a'', key_repr = ''a''\<rparr> (io_at 2 False),
      KeyRelease \<lparr>key_char = Some ''a'', key_repr = ''a''\<rparr> (io_at 3 True)]"


definition demo_stop_fail :: stop_env where
  "demo_stop_fail = \<lparr>dur_perf = 9, stop_io = io_at 9 False\<rparr>"

definition demo_zero_clock :: start_env where
  "demo_zero_clock = demo_start\<lparr>start_perf := 0\<rparr>"

definition demo_thread_fail :: start_env where
  "demo_thread_fail = demo_start\<lparr>gp := GpThreadError\<rparr>"

definition demo_key :: pkey where
  "demo_key = \<lparr>key_char = Some ''a'', key_repr = [CHR 0x27, CHR ''a'', CHR 0x27]\<rparr>"

section \<open>Facts about the record path\<close>

lemma log_event_written:
  "log_file s = Some p \<Longrightarrow> truthy_time (start_time s) \<Longrightarrow> write_ok env \<Longrightarrow>
   log_event s ty d env =
     (Returned (),
      bump_counters (flush_file (s\<lparr>pending := pending s @ [make_entry s ty d env]\<rparr>) p) ty)"
  by (simp add: log_event_def)

lemma log_event_failed:
  "log_file s = Some p \<Longrightarrow> truthy_time (start_time s) \<Longrightarrow> \<not> write_ok env \<Longrightarrow>
   log_event s ty d env = (Raised OSError, s\<lparr>pending := pending s @ [make_entry s ty d env]\<rparr>)"
  by (simp add: log_event_def)

lemma log_event_skipped:
  "log_file s = None \<or> \<not> truthy_time (start_time s) \<Longrightarrow> log_event s ty d env = (Returned (), s)"
  by (auto simp add: log_event_def split: option.splits)

lemma make_entry_type [simp]: "event_type (make_entry s ty d env) = ty"
  by (simp add: make_entry_def Let_def)

lemma make_entry_details [simp]: "details (make_entry s ty d env) = d"
  by (simp add: make_entry_def Let_def)

lemma make_entry_buffer [simp]: "make_entry (s\<lparr>pending := b\<rparr>) ty d env = make_entry s ty d env"
  by (simp add: make_entry_def)

lemma bump_frame [simp]:
  "recording (bump_counters s ty) = recording s"
  "log_file (bump_counters s ty) = log_file s"
  "start_time (bump_counters s ty) = start_time s"
  "last_mouse_pos (bump_counters s ty) = last_mouse_pos s"
  "disk (bump_counters s ty) = disk s"
  "pending (bump_counters s ty) = pending s"
  "closes (bump_counters s ty) = closes s"
  "running (bump_counters s ty) = running s"
  "pynput_available (bump_counters s ty) = pynput_available s"
  "gp_tracking (bump_counters s ty) = gp_tracking s"
  "gp_joystick (bump_counters s ty) = gp_joystick s"
  "event_count (bump_counters s ty) = event_count s + 1"
  by (simp_all add: bump_counters_def Let_def)

lemma flush_frame [simp]:
  "recording (flush_file s p) = recording s"
  "log_file (flush_file s p) = log_file s"
  "start_time (flush_file s p) = start_time s"
  "last_mouse_pos (flush_file s p) = last_mouse_pos s"
  "closes (flush_file s p) = closes s"
  "handles (flush_file s p) = handles s"
  "running (flush_file s p) = running s"
  "pynput_available (flush_file s p) = pynput_available s"
  "gp_tracking (flush_file s p) = gp_tracking s"
  "gp_joystick (flush_file s p) = gp_joystick s"
  "event_count (flush_file s p) = event_count s"
  "mouse_count (flush_file s p) = mouse_count s"
  "keyboard_count (flush_file s p) = keyboard_count s"
  "gamepad_count (flush_file s p) = gamepad_count s"
  "pending (flush_file s p) = []"
  by (simp_all add: flush_file_def)

lemma flush_disk: "disk s p = Some ls \<Longrightarrow> disk (flush_file s p) p = Some (ls @ pending s)"
  by (simp add: flush_file_def)

lemma log_event_snd_frame [simp]:
  "recording (snd (log_event s ty d env)) = recording s"
  "log_file (snd (log_event s ty d env)) = log_file s"
  "start_time (snd (log_event s ty d env)) = start_time s"
  "last_mouse_pos (snd (log_event s ty d env)) = last_mouse_pos s"
  "closes (snd (log_event s ty d env)) = closes s"
  "running (snd (log_event s ty d env)) = running s"
  "pynput_available (snd (log_event s ty d env)) = pynput_available s"
  "gp_tracking (snd (log_event s ty d env)) = gp_tracking s"
  "gp_joystick (snd (log_event s ty d env)) = gp_joystick s"
  by (simp_all add: log_event_def Let_def split: option.splits)

lemma log_event_frame:
  assumes "log_event s ty d env = (r, s')"
  shows "recording s' = recording s \<and> log_file s' = log_file s \<and> start_time s' = start_time s
    \<and> last_mouse_pos s' = last_mouse_pos s \<and> closes s' = closes s"
proof -
  have "s' = snd (log_event s ty d env)" using assms by simp
  then show ?thesis by simp
qed

text \<open>Counting an input entry.\<close>

lemma bump_mouse:
  "ty = ''MouseDelta'' \<or> ty = ''MouseClick'' \<Longrightarrow>
   bump_counters s ty = s\<lparr>event_count := event_count s + 1, mouse_count := mouse_count s + 1\<rparr>"
  by (auto simp add: bump_counters_def startswith_def Let_def)

lemma bump_key:
  "ty = ''KeyDown'' \<or> ty = ''KeyUp'' \<Longrightarrow>
   bump_counters s ty = s\<lparr>event_count := event_count s + 1, keyboard_count := keyboard_count s + 1\<rparr>"
  by (auto simp add: bump_counters_def startswith_def Let_def)

lemma bump_gamepad:
  "ty = ''gamepad_'' @ ety \<Longrightarrow>
   bump_counters s ty = s\<lparr>event_count := event_count s + 1, gamepad_count := gamepad_count s + 1\<rparr>"
  by (simp add: bump_counters_def startswith_def Let_def)

lemma input_type_entry:
  assumes "input_type ty"
  shows "is_input_entry (make_entry s ty d env)"
proof -
  consider (named) "ty = ''MouseDelta'' \<or> ty = ''MouseClick'' \<or> ty = ''KeyDown'' \<or> ty = ''KeyUp''"
    | (pad) ety where "ty = ''gamepad_'' @ ety"
    using assms unfolding input_type_def by blast
  then show ?thesis
  proof cases
    case named
    then have "is_mouse_entry (make_entry s ty d env) \<or> is_keyboard_entry (make_entry s ty d env)"
      by (simp add: is_mouse_entry_def is_keyboard_entry_def)
    then show ?thesis unfolding is_input_entry_def by blast
  next
    case pad
    then have "is_gamepad_entry (make_entry s ty d env)" by (simp add: is_gamepad_entry_def)
    then show ?thesis by (simp add: is_input_entry_def)
  qed
qed

text \<open>One recorded input entry keeps the session.\<close>

lemma in_session_log:
  assumes "in_session p first cl s mids" and "input_type ty" and "write_ok env"
  shows "\<exists>mids'. in_session p first cl (snd (log_event s ty d env)) mids'"
proof -
  let ?r = "make_entry s ty d env"
  let ?s = "flush_file (s\<lparr>pending := pending s @ [?r]\<rparr>) p"
  from assms(1,3) have w: "log_event s ty d env = (Returned (), bump_counters ?s ty)"
    by (simp add: in_session_def log_event_written)
  have d: "disk ?s p = Some (first # mids @ [?r])" "pending ?s = []"
    using assms(1) by (simp_all add: in_session_def flush_disk)
  consider (mouse) "ty = ''MouseDelta'' \<or> ty = ''MouseClick''"
    | (key) "ty = ''KeyDown'' \<or> ty = ''KeyUp''"
    | (pad) ety where "ty = ''gamepad_'' @ ety"
    using assms(2) unfolding input_type_def by blast
  then have "in_session p first cl (bump_counters ?s ty) (mids @ [?r])"
  proof cases
    case mouse
    then have k: "is_mouse_entry ?r" "\<not> is_keyboard_entry ?r" "\<not> is_gamepad_entry ?r"
      by (auto simp add: is_mouse_entry_def is_keyboard_entry_def is_gamepad_entry_def)
    show ?thesis
      using assms(1) d k unfolding bump_mouse [OF mouse]
      by (simp add: in_session_def is_input_entry_def)
  next
    case key
    then have k: "\<not> is_mouse_entry ?r" "is_keyboard_entry ?r" "\<not> is_gamepad_entry ?r"
      by (auto simp add: is_mouse_entry_def is_keyboard_entry_def is_gamepad_entry_def)
    show ?thesis
      using assms(1) d k unfolding bump_key [OF key]
      by (simp add: in_session_def is_input_entry_def)
  next
    case pad
    then have k: "\<not> is_mouse_entry ?r" "\<not> is_keyboard_entry ?r" "is_gamepad_entry ?r"
      by (auto simp add: is_mouse_entry_def is_keyboard_entry_def is_gamepad_entry_def)
    show ?thesis
      using assms(1) d k unfolding bump_gamepad [OF pad]
      by (simp add: in_session_def is_input_entry_def)
  qed
  with w show ?thesis by auto
qed

text \<open>One logged input entry, flushed or not, keeps the layout of the session.\<close>

lemma layout_log:
  assumes "session_layout p first cl s mids" and "input_type ty"
  shows "\<exists>mids'. session_layout p first cl (snd (log_event s ty d env)) mids'"
proof -
  let ?r = "make_entry s ty d env"
  from assms(1) obtain ls where
    h: "recording s" "log_file s = Some p" "truthy_time (start_time s)" "closes s = cl"
       "list_all is_input_entry mids" "disk s p = Some ls" "ls \<noteq> []"
       "ls @ pending s = first # mids"
    by (auto simp add: session_layout_def split: option.splits)
  have i: "list_all is_input_entry (mids @ [?r])"
    using h(5) input_type_entry [OF assms(2)] by simp
  have "session_layout p first cl (snd (log_event s ty d env)) (mids @ [?r])"
  proof (cases "write_ok env")
    case True
    show ?thesis
      using h i by (simp add: log_event_written [OF h(2,3) True] session_layout_def flush_disk)
  next
    case False
    show ?thesis
      using h i by (simp add: log_event_failed [OF h(2,3) False] session_layout_def)
  qed
  then show ?thesis by (rule exI)
qed

text \<open>With a start time that is zero nothing is logged.\<close>

lemma silent_log:
  "silent_session p s \<Longrightarrow> log_event s ty d env = (Returned (), s)"
  by (simp add: silent_session_def log_event_skipped)

section \<open>Facts about the handlers\<close>

lemma in_session_seed:
  "in_session p first cl s mids \<Longrightarrow> in_session p first cl (s\<lparr>last_mouse_pos := v\<rparr>) mids"
  by (simp add: in_session_def)

lemma layout_seed:
  "session_layout p first cl s mids \<Longrightarrow> session_layout p first cl (s\<lparr>last_mouse_pos := v\<rparr>) mids"
  by (simp add: session_layout_def split: option.splits)

lemma silent_seed:
  "silent_session p s \<Longrightarrow> silent_session p (s\<lparr>last_mouse_pos := v\<rparr>)"
  by (simp add: silent_session_def)

lemma move_seeds:
  "recording s \<Longrightarrow> last_mouse_pos s = None \<Longrightarrow>
   on_mouse_move s x y env = (Returned (), s\<lparr>last_mouse_pos := Some (x, y)\<rparr>)"
  by (simp add: on_mouse_move_def)

lemma move_still:
  "recording s \<Longrightarrow> last_mouse_pos s = Some (x, y) \<Longrightarrow>
   on_mouse_move s x y env = (Returned (), s\<lparr>last_mouse_pos := Some (x, y)\<rparr>)"
  by (simp add: on_mouse_move_def)

lemma move_logs:
  assumes "recording s" and "last_mouse_pos s = Some (lx, ly)" and "x \<noteq> lx \<or> y \<noteq> ly"
  shows "on_mouse_move s x y env =
     (case log_event s ''MouseDelta'' (delta_details s lx ly x y) env of
        (Raised e, s') \<Rightarrow> (Raised e, s')
      | (Returned u, s') \<Rightarrow> (Returned (), s'\<lparr>last_mouse_pos := Some (x, y)\<rparr>))"
  using assms by (auto simp add: on_mouse_move_def delta_details_def Let_def)

text \<open>What a mouse move leaves: the tracker with the position seeded, or what
  \<open>log_event\<close> left, with or without the position.\<close>

lemma move_cases:
  assumes "recording s"
  shows "snd (on_mouse_move s x y env) = s\<lparr>last_mouse_pos := Some (x, y)\<rparr> \<or>
         (\<exists>d. snd (on_mouse_move s x y env) = snd (log_event s ''MouseDelta'' d env) \<or>
              snd (on_mouse_move s x y env) =
                (snd (log_event s ''MouseDelta'' d env))\<lparr>last_mouse_pos := Some (x, y)\<rparr>)"
proof (cases "last_mouse_pos s")
  case None
  with assms show ?thesis by (simp add: move_seeds)
next
  case (Some q)
  obtain lx ly where q: "last_mouse_pos s = Some (lx, ly)" using Some by (cases q) simp
  show ?thesis
  proof (cases "x \<noteq> lx \<or> y \<noteq> ly")
    case False
    with assms q show ?thesis by (simp add: move_still)
  next
    case True
    obtain r s' where l: "log_event s ''MouseDelta'' (delta_details s lx ly x y) env = (r, s')"
      by (cases "log_event s ''MouseDelta'' (delta_details s lx ly x y) env")
    have "snd (on_mouse_move s x y env) = s' \<or>
          snd (on_mouse_move s x y env) = s'\<lparr>last_mouse_pos := Some (x, y)\<rparr>"
      unfolding move_logs [OF assms q True] l by (cases r) simp_all
    with l show ?thesis by (metis snd_conv)
  qed
qed

lemma input_type_named [simp]:
  "input_type ''MouseDelta''" "input_type ''MouseClick''" "input_type ''KeyDown''"
  "input_type ''KeyUp''"
  by (simp_all add: input_type_def)

lemma input_type_gamepad [simp]: "input_type (''gamepad_'' @ ety)"
  unfolding input_type_def by blast

lemma start_when_recording: "recording s \<Longrightarrow> start_recording_sync s e = (False, s)"
  by (simp add: start_recording_sync_def)

lemma in_session_step:
  assumes "in_session p first cl s mids" and "\<not> is_stop c" and "cmd_write_ok c"
  shows "\<exists>mids'. in_session p first cl (step s c) mids'"
proof -
  have rec: "recording s" using assms(1) by (simp add: in_session_def)
  show ?thesis
  proof (cases c)
    case (Start e)
    with assms(1) rec show ?thesis by (auto simp add: start_when_recording)
  next
    case (Stop e)
    with assms(2) show ?thesis by simp
  next
    case (MouseMove x y env)
    then have w: "write_ok env" using assms(3) by simp
    from move_cases [OF rec, of x y env] consider
      (seed) "step s c = s\<lparr>last_mouse_pos := Some (x, y)\<rparr>"
      | (log) d where "step s c = snd (log_event s ''MouseDelta'' d env)"
      | (both) d where
          "step s c = (snd (log_event s ''MouseDelta'' d env))\<lparr>last_mouse_pos := Some (x, y)\<rparr>"
      unfolding MouseMove by auto
    then show ?thesis
    proof cases
      case seed
      with in_session_seed [OF assms(1)] show ?thesis by auto
    next
      case log
      with in_session_log [OF assms(1) _ w, of "''MouseDelta''" d] show ?thesis by simp
    next
      case both
      from in_session_log [OF assms(1) _ w, of "''MouseDelta''" d] obtain m where
        "in_session p first cl (snd (log_event s ''MouseDelta'' d env)) m" by auto
      from in_session_seed [OF this] both show ?thesis by auto
    qed
  next
    case (MouseClick x y b pr env)
    with rec assms(3) in_session_log [OF assms(1), of "''MouseClick''" env] show ?thesis
      by (simp add: on_mouse_click_def)
  next
    case (KeyPress k env)
    with rec assms(3) in_session_log [OF assms(1), of "''KeyDown''" env] show ?thesis
      by (simp add: on_key_press_def)
  next
    case (KeyRelease k env)
    with rec assms(3) in_session_log [OF assms(1), of "''KeyUp''" env] show ?thesis
      by (simp add: on_key_release_def)
  next
    case (Gamepad ety d env)
    then have w: "write_ok env" using assms(3) by simp
    from in_session_log [OF assms(1) input_type_gamepad w, of ety d] Gamepad rec show ?thesis
      by (simp add: log_gamepad_event_def)
  qed
qed

lemma layout_step:
  assumes "session_layout p first cl s mids" and "\<not> is_stop c"
  shows "\<exists>mids'. session_layout p first cl (step s c) mids'"
proof -
  have rec: "recording s" using assms(1) by (simp add: session_layout_def)
  show ?thesis
  proof (cases c)
    case (Start e)
    with assms(1) rec show ?thesis by (auto simp add: start_when_recording)
  next
    case (Stop e)
    with assms(2) show ?thesis by simp
  next
    case (MouseMove x y env)
    from move_cases [OF rec, of x y env] consider
      (seed) "step s c = s\<lparr>last_mouse_pos := Some (x, y)\<rparr>"
      | (log) d where "step s c = snd (log_event s ''MouseDelta'' d env)"
      | (both) d where
          "step s c = (snd (log_event s ''MouseDelta'' d env))\<lparr>last_mouse_pos := Some (x, y)\<rparr>"
      unfolding MouseMove by auto
    then show ?thesis
    proof cases
      case seed
      with layout_seed [OF assms(1)] show ?thesis by auto
    next
      case log
      with layout_log [OF assms(1), of "''MouseDelta''" d env] show ?thesis by simp
    next
      case both
      from layout_log [OF assms(1), of "''MouseDelta''" d env] obtain m where
        "session_layout p first cl (snd (log_event s ''MouseDelta'' d env)) m" by auto
      from layout_seed [OF this] both show ?thesis by auto
    qed
  next
    case (MouseClick x y b pr env)
    with rec layout_log [OF assms(1), of "''MouseClick''" _ env] show ?thesis
      by (simp add: on_mouse_click_def)
  next
    case (KeyPress k env)
    with rec layout_log [OF assms(1), of "''KeyDown''" _ env] show ?thesis
      by (simp add: on_key_press_def)
  next
    case (KeyRelease k env)
    with rec layout_log [OF assms(1), of "''KeyUp''" _ env] show ?thesis
      by (simp add: on_key_release_def)
  next
    case (Gamepad ety d env)
    from layout_log [OF assms(1) input_type_gamepad, of ety d env] Gamepad rec show ?thesis
      by (simp add: log_gamepad_event_def)
  qed
qed

lemma silent_step:
  assumes "silent_session p s" and "\<not> is_stop c"
  shows "silent_session p (step s c)"
proof -
  have rec: "recording s" using assms(1) by (simp add: silent_session_def)
  note l = silent_log [OF assms(1)]
  show ?thesis
  proof (cases c)
    case (Start e)
    with assms(1) rec show ?thesis by (simp add: start_when_recording)
  next
    case (Stop e)
    with assms(2) show ?thesis by simp
  next
    case (MouseMove x y env)
    from move_cases [OF rec, of x y env] have
      "step s c = s \<or> step s c = s\<lparr>last_mouse_pos := Some (x, y)\<rparr>"
      unfolding MouseMove by (auto simp add: l)
    with assms(1) silent_seed [OF assms(1)] show ?thesis by auto
  next
    case (MouseClick x y b pr env)
    with rec assms(1) show ?thesis by (simp add: on_mouse_click_def l)
  next
    case (KeyPress k env)
    with rec assms(1) show ?thesis by (simp add: on_key_press_def l)
  next
    case (KeyRelease k env)
    with rec assms(1) show ?thesis by (simp add: on_key_release_def l)
  next
    case (Gamepad ety d env)
    with rec assms(1) show ?thesis by (simp add: log_gamepad_event_def l)
  qed
qed

lemma in_session_run:
  "in_session p first cl s mids \<Longrightarrow> \<forall>c\<in>set cs. \<not> is_stop c \<and> cmd_write_ok c \<Longrightarrow>
   \<exists>mids'. in_session p first cl (run s cs) mids'"
proof (induction cs arbitrary: s mids)
  case Nil
  then show ?case by auto
next
  case (Cons c cs)
  from Cons.prems obtain m1 where "in_session p first cl (step s c) m1"
    using in_session_step [of p first cl s mids c] by auto
  with Cons.IH [of "step s c" m1] Cons.prems show ?case by simp
qed

lemma layout_run:
  "session_layout p first cl s mids \<Longrightarrow> \<forall>c\<in>set cs. \<not> is_stop c \<Longrightarrow>
   \<exists>mids'. session_layout p first cl (run s cs) mids'"
proof (induction cs arbitrary: s mids)
  case Nil
  then show ?case by auto
next
  case (Cons c cs)
  from Cons.prems obtain m1 where "session_layout p first cl (step s c) m1"
    using layout_step [of p first cl s mids c] by auto
  with Cons.IH [of "step s c" m1] Cons.prems show ?case by simp
qed

lemma silent_run:
  "silent_session p s \<Longrightarrow> \<forall>c\<in>set cs. \<not> is_stop c \<Longrightarrow> silent_session p (run s cs)"
  by (induction cs arbitrary: s) (simp_all add: silent_step)

lemma in_session_layout:
  "in_session p first cl s mids \<Longrightarrow> session_layout p first cl s mids"
  by (simp add: in_session_def session_layout_def)

section \<open>Facts about start and stop\<close>

lemma arm_listeners_frame [simp]:
  "recording (snd (arm_listeners s e)) = recording s"
  "log_file (snd (arm_listeners s e)) = log_file s"
  "start_time (snd (arm_listeners s e)) = start_time s"
  "last_mouse_pos (snd (arm_listeners s e)) = last_mouse_pos s"
  "disk (snd (arm_listeners s e)) = disk s"
  "pending (snd (arm_listeners s e)) = pending s"
  "closes (snd (arm_listeners s e)) = closes s"
  "handles (snd (arm_listeners s e)) = handles s"
  "event_count (snd (arm_listeners s e)) = event_count s"
  "mouse_count (snd (arm_listeners s e)) = mouse_count s"
  "keyboard_count (snd (arm_listeners s e)) = keyboard_count s"
  "gamepad_count (snd (arm_listeners s e)) = gamepad_count s"
  "gamepad_enabled (snd (arm_listeners s e)) = gamepad_enabled s"
  "pygame_ready (snd (arm_listeners s e)) = pygame_ready s"
  by (simp_all add: arm_listeners_def Let_def)

lemma start_tracking_frame [simp]:
  "recording (snd (start_tracking s g)) = recording s"
  "log_file (snd (start_tracking s g)) = log_file s"
  "start_time (snd (start_tracking s g)) = start_time s"
  "last_mouse_pos (snd (start_tracking s g)) = last_mouse_pos s"
  "disk (snd (start_tracking s g)) = disk s"
  "pending (snd (start_tracking s g)) = pending s"
  "closes (snd (start_tracking s g)) = closes s"
  "handles (snd (start_tracking s g)) = handles s"
  "event_count (snd (start_tracking s g)) = event_count s"
  "mouse_count (snd (start_tracking s g)) = mouse_count s"
  "keyboard_count (snd (start_tracking s g)) = keyboard_count s"
  "gamepad_count (snd (start_tracking s g)) = gamepad_count s"
  by (simp_all add: start_tracking_def connect_gamepad_def Let_def split: gp_connect.splits)

lemma reset_frame [simp]:
  "recording (reset_counters s) = recording s"
  "log_file (reset_counters s) = log_file s"
  "start_time (reset_counters s) = start_time s"
  "disk (reset_counters s) = disk s"
  "pending (reset_counters s) = pending s"
  "closes (reset_counters s) = closes s"
  "running (reset_counters s) = running s"
  "next_obj (reset_counters s) = next_obj s"
  "pynput_available (reset_counters s) = pynput_available s"
  "gamepad_enabled (reset_counters s) = gamepad_enabled s"
  "pygame_ready (reset_counters s) = pygame_ready s"
  "last_mouse_pos (reset_counters s) = None"
  "event_count (reset_counters s) = 0"
  "mouse_count (reset_counters s) = 0"
  "keyboard_count (reset_counters s) = 0"
  "gamepad_count (reset_counters s) = 0"
  by (simp_all add: reset_counters_def)

lemma opened_frame [simp]:
  "recording (opened s e) = recording s"
  "running (opened s e) = running s"
  "next_obj (opened s e) = next_obj s"
  "closes (opened s e) = closes s"
  "pynput_available (opened s e) = pynput_available s"
  "gamepad_enabled (opened s e) = gamepad_enabled s"
  "pygame_ready (opened s e) = pygame_ready s"
  "log_file (opened s e) = Some (log_path s e)"
  "truthy_time (start_time (opened s e)) = (start_perf e \<noteq> 0)"
  "disk (opened s e) (log_path s e) = Some []"
  "pending (opened s e) = []"
  by (simp_all add: opened_def truthy_time_def)

text \<open>What a start does, step by step.\<close>

lemma start_unfold:
  "start_recording_sync s e =
     (if recording s then (False, s)
      else if \<not> open_ok e then (False, s\<lparr>current_log_path := Some (log_path s e)\<rparr>)
      else case log_event (opened s e) ''SessionStart'' (session_info (opened s e) e) (start_io e) of
             (Raised x, s4) \<Rightarrow> (False, s4)
           | (Returned u, s4) \<Rightarrow>
               (case arm_listeners (reset_counters s4) e of
                  (False, s5) \<Rightarrow> (False, s5)
                | (True, s5) \<Rightarrow>
                    if gamepad_enabled s5 then
                      (case start_tracking s5 (gp e) of
                         (Raised x, s6) \<Rightarrow> (False, s6)
                       | (Returned b, s6) \<Rightarrow> (True, s6\<lparr>recording := True\<rparr>))
                    else (True, s5\<lparr>recording := True\<rparr>)))"
  by (simp add: start_recording_sync_def opened_def Let_def
      split: prod.splits result.splits bool.splits)

text \<open>The same with projections: \<open>l\<close> is the metadata write, \<open>a\<close> the arming of the
  listeners and \<open>g\<close> the start of the gamepad tracking.\<close>

lemma start_result:
  assumes "\<not> recording s" and "open_ok e"
  shows "start_recording_sync s e =
     (let l = log_event (opened s e) ''SessionStart'' (session_info (opened s e) e) (start_io e);
          a = arm_listeners (reset_counters (snd l)) e;
          g = start_tracking (snd a) (gp e)
      in if fst l \<noteq> Returned () then (False, snd l)
         else if \<not> fst a then (False, snd a)
         else if \<not> gamepad_enabled (snd a) then (True, (snd a)\<lparr>recording := True\<rparr>)
         else if fst g = Raised RuntimeError then (False, snd g)
         else (True, (snd g)\<lparr>recording := True\<rparr>))"
proof -
  obtain r s4 where l:
    "log_event (opened s e) ''SessionStart'' (session_info (opened s e) e) (start_io e) = (r, s4)"
    by (cases "log_event (opened s e) ''SessionStart'' (session_info (opened s e) e) (start_io e)")
  obtain b s5 where a: "arm_listeners (reset_counters s4) e = (b, s5)"
    by (cases "arm_listeners (reset_counters s4) e")
  obtain t s6 where g: "start_tracking s5 (gp e) = (t, s6)"
    by (cases "start_tracking s5 (gp e)")
  have t: "t = Raised RuntimeError \<or> (\<exists>v. t = Returned v)"
    using g by (auto simp add: start_tracking_def Let_def split: if_splits prod.splits bool.splits)
  show ?thesis
    using assms t unfolding start_unfold Let_def l
    by (cases r; cases b) (auto simp add: a g)
qed

lemma start_succeeds:
  assumes "fst (start_recording_sync s e)"
  shows "\<not> recording s \<and> open_ok e \<and>
    (\<exists>s4 s5 s6. log_event (opened s e) ''SessionStart'' (session_info (opened s e) e) (start_io e)
               = (Returned (), s4) \<and>
             s5 = snd (arm_listeners (reset_counters s4) e) \<and>
             (s6 = s5 \<or> s6 = snd (start_tracking s5 (gp e))) \<and>
             snd (start_recording_sync s e) = s6\<lparr>recording := True\<rparr>)"
proof -
  have n: "\<not> recording s" using assms by (auto simp add: start_unfold)
  have o: "open_ok e" using assms n by (auto simp add: start_unfold split: if_splits)
  let ?l = "log_event (opened s e) ''SessionStart'' (session_info (opened s e) e) (start_io e)"
  let ?a = "arm_listeners (reset_counters (snd ?l)) e"
  note r = start_result [OF n o]
  have l: "fst ?l = Returned ()"
    using assms unfolding r Let_def by (auto split: if_splits)
  then have l': "?l = (Returned (), snd ?l)" by (metis prod.collapse)
  have "snd (start_recording_sync s e) = (snd ?a)\<lparr>recording := True\<rparr> \<or>
        snd (start_recording_sync s e) = (snd (start_tracking (snd ?a) (gp e)))\<lparr>recording := True\<rparr>"
    using assms unfolding r Let_def by (auto split: if_splits)
  with n o l' show ?thesis by blast
qed

lemma start_enters_session:
  assumes "fst (start_recording_sync s e)" and "start_perf e \<noteq> 0"
  shows "\<exists>first. event_type first = ''SessionStart'' \<and>
           in_session (log_path s e) first (closes s) (snd (start_recording_sync s e)) []"
proof -
  let ?o = "opened s e"
  let ?p = "log_path s e"
  let ?r = "make_entry ?o ''SessionStart'' (session_info ?o e) (start_io e)"
  from start_succeeds [OF assms(1)] obtain s4 s5 s6 where
    l: "log_event ?o ''SessionStart'' (session_info ?o e) (start_io e) = (Returned (), s4)" and
    a: "s5 = snd (arm_listeners (reset_counters s4) e)" and
    g: "s6 = s5 \<or> s6 = snd (start_tracking s5 (gp e))" and
    f: "snd (start_recording_sync s e) = s6\<lparr>recording := True\<rparr>"
    by blast
  have o: "log_file ?o = Some ?p" "truthy_time (start_time ?o)" using assms(2) by simp_all
  have w: "write_ok (start_io e)"
  proof (rule ccontr)
    assume "\<not> write_ok (start_io e)"
    with o l show False by (simp add: log_event_failed)
  qed
  have s4: "s4 = bump_counters (flush_file (?o\<lparr>pending := pending ?o @ [?r]\<rparr>) ?p) ''SessionStart''"
    using l o w by (simp add: log_event_written)
  have s4': "log_file s4 = Some ?p" "truthy_time (start_time s4)" "disk s4 ?p = Some [?r]"
    "closes s4 = closes s" "pending s4 = []"
    using o by (simp_all add: s4 flush_disk)
  have "in_session ?p ?r (closes s) (s5\<lparr>recording := True\<rparr>) []"
    using s4' by (simp add: a in_session_def)
  moreover have
    "in_session ?p ?r (closes s) ((snd (start_tracking s5 (gp e)))\<lparr>recording := True\<rparr>) []"
    using s4' by (simp add: a in_session_def)
  ultimately have "in_session ?p ?r (closes s) (snd (start_recording_sync s e)) []"
    using g unfolding f by auto
  then show ?thesis by (intro exI [of _ ?r]) simp
qed

lemma start_silent:
  assumes "fst (start_recording_sync s e)" and "start_perf e = 0"
  shows "silent_session (log_path s e) (snd (start_recording_sync s e))"
proof -
  let ?o = "opened s e"
  from start_succeeds [OF assms(1)] obtain s4 s5 s6 where
    l: "log_event ?o ''SessionStart'' (session_info ?o e) (start_io e) = (Returned (), s4)" and
    a: "s5 = snd (arm_listeners (reset_counters s4) e)" and
    g: "s6 = s5 \<or> s6 = snd (start_tracking s5 (gp e))" and
    f: "snd (start_recording_sync s e) = s6\<lparr>recording := True\<rparr>"
    by blast
  have "\<not> truthy_time (start_time ?o)" using assms(2) by simp
  then have "log_event ?o ''SessionStart'' (session_info ?o e) (start_io e) = (Returned (), ?o)"
    by (simp add: log_event_skipped)
  with l have s4: "s4 = ?o" by simp
  have q: "log_file s4 = Some (log_path s e)" "\<not> truthy_time (start_time s4)"
    "disk s4 (log_path s e) = Some []" "pending s4 = []"
    using assms(2) unfolding s4 by simp_all
  have "silent_session (log_path s e) (s5\<lparr>recording := True\<rparr>)"
    using q by (simp add: a silent_session_def)
  moreover have
    "silent_session (log_path s e) ((snd (start_tracking s5 (gp e)))\<lparr>recording := True\<rparr>)"
    using q by (simp add: a silent_session_def)
  ultimately show ?thesis using g unfolding f by auto
qed

text \<open>The stop that ends a session.\<close>

lemma stop_listener_frame [simp]:
  "recording (stop_listener s i) = recording s"
  "log_file (stop_listener s i) = log_file s"
  "disk (stop_listener s i) = disk s"
  "pending (stop_listener s i) = pending s"
  "closes (stop_listener s i) = closes s"
  "handles (stop_listener s i) = handles s"
  by (simp_all add: stop_listener_def)

lemma stop_tracking_frame [simp]:
  "recording (stop_tracking s) = recording s"
  "log_file (stop_tracking s) = log_file s"
  "disk (stop_tracking s) = disk s"
  "pending (stop_tracking s) = pending s"
  "closes (stop_tracking s) = closes s"
  "handles (stop_tracking s) = handles s"
  by (simp_all add: stop_tracking_def)


lemma close_log_recording [simp]: "recording (close_log s) = recording s"
  by (simp add: close_log_def split: option.splits)


text \<open>What a stop does once its entry is logged: \<open>s2\<close> is the tracker after
  \<open>log_event\<close>.\<close>

lemma stop_after_log:
  assumes "recording s" and "log_file s = Some p"
    and "log_event (s\<lparr>recording := False\<rparr>) ''SessionEnd''
           (session_end (s\<lparr>recording := False\<rparr>) t) (stop_io t) = (Returned (), s2)"
  shows "disk (stop_recording s t) p =
           Some ((case disk s2 p of None \<Rightarrow> [] | Some ls \<Rightarrow> ls) @ pending s2) \<and>
         closes (stop_recording s t) = closes s2 @ [p] \<and>
         log_file (stop_recording s t) = None"
proof -
  have l2: "log_file s2 = Some p"
    using log_event_frame [OF assms(3)] assms(2) by simp
  show ?thesis
    using assms(1,2) l2 unfolding stop_recording_def Let_def
    by (simp add: assms(3) close_log_def flush_file_def split: option.splits)
qed

lemma stop_ends_layout:
  assumes "session_layout p first cl s mids" and "write_ok (stop_io t)"
  shows "\<exists>end. disk (stop_recording s t) p = Some (first # mids @ [end]) \<and>
           event_type end = ''SessionEnd'' \<and>
           details end = session_end s t \<and>
           closes (stop_recording s t) = cl @ [p] \<and>
           log_file (stop_recording s t) = None"
proof -
  let ?s1 = "s\<lparr>recording := False\<rparr>"
  let ?r = "make_entry ?s1 ''SessionEnd'' (session_end ?s1 t) (stop_io t)"
  let ?s2 = "bump_counters (flush_file (?s1\<lparr>pending := pending ?s1 @ [?r]\<rparr>) p) ''SessionEnd''"
  from assms(1) obtain ls where
    h: "recording s" "log_file s = Some p" "truthy_time (start_time s)" "closes s = cl"
       "disk s p = Some ls" "ls @ pending s = first # mids"
    by (auto simp add: session_layout_def split: option.splits)
  have l: "log_event ?s1 ''SessionEnd'' (session_end ?s1 t) (stop_io t) = (Returned (), ?s2)"
    using h assms(2) by (simp add: log_event_written)
  have s2: "disk ?s2 p = Some (first # mids @ [?r])" "pending ?s2 = []" "closes ?s2 = cl"
    using h by (simp_all add: flush_disk)
  from stop_after_log [OF h(1,2) l] s2 have
    "disk (stop_recording s t) p = Some (first # mids @ [?r]) \<and>
     closes (stop_recording s t) = cl @ [p] \<and> log_file (stop_recording s t) = None"
    by simp
  moreover have "details ?r = session_end s t" by (simp add: session_end_def)
  ultimately show ?thesis by (intro exI [of _ ?r]) simp
qed

lemma stop_silent:
  assumes "silent_session p s"
  shows "disk (stop_recording s t) p = Some [] \<and> log_file (stop_recording s t) = None"
proof -
  let ?s1 = "s\<lparr>recording := False\<rparr>"
  have h: "recording s" "log_file s = Some p" "\<not> truthy_time (start_time ?s1)"
    "disk ?s1 p = Some []" "pending ?s1 = []"
    using assms by (simp_all add: silent_session_def)
  have l: "log_event ?s1 ''SessionEnd'' (session_end ?s1 t) (stop_io t) = (Returned (), ?s1)"
    using h(3) by (simp add: log_event_skipped)
  from stop_after_log [OF h(1,2) l] h(4,5) show ?thesis by simp
qed

section \<open>Evaluating the concrete environment\<close>

lemmas demo_eval =
  demo_tracker_def demo_start_def demo_stop_def demo_key_def demo_recording_def demo_inputs_def
  io_at_def init_tracker_def
  start_recording_sync_def log_path_def session_info_def get_gamepad_count_def log_event_def
  make_entry_def truthy_time_def round6_def flush_file_def bump_counters_def startswith_def
  reset_counters_def arm_listeners_def start_tracking_def connect_gamepad_def
  stop_recording_def session_end_def stop_listener_def stop_tracking_def close_log_def
  on_mouse_move_def on_mouse_click_def on_key_press_def on_key_release_def key_str_def
  log_gamepad_event_def Let_def

lemma demo_start_ok: "fst (start_recording_sync demo_tracker demo_start)"
  by (simp add: demo_eval)

lemma demo_recording_on: "recording demo_recording"
  by (simp add: demo_eval)

lemma demo_restart_ok:
  "fst (start_recording_sync (stop_recording demo_recording demo_stop) demo_start)"
  by (simp add: demo_eval)

lemma demo_inputs_no_stop: "\<forall>c\<in>set demo_inputs. \<not> is_stop c"
  by (simp add: demo_inputs_def)

lemma demo_inputs_written: "\<forall>c\<in>set demo_inputs. cmd_write_ok c"
  by (simp add: demo_inputs_def io_at_def)

section \<open>Runs and the recording flag\<close>

lemma run_append: "run s (xs @ ys) = run (run s xs) ys"
  by (induction xs arbitrary: s) simp_all

lemma on_mouse_move_recording: "recording (snd (on_mouse_move s x y env)) = recording s"
proof (cases "recording s")
  case False
  then show ?thesis by (simp add: on_mouse_move_def)
next
  case True
  from move_cases [OF True, of x y env] True show ?thesis by auto
qed

lemma step_keeps_recording: "recording s \<Longrightarrow> \<not> is_stop c \<Longrightarrow> recording (step s c)"
  by (cases c)
     (simp_all add: start_when_recording on_mouse_move_recording on_mouse_click_def
        on_key_press_def on_key_release_def log_gamepad_event_def)

lemma run_keeps_recording:
  "recording s \<Longrightarrow> \<forall>c\<in>set cs. \<not> is_stop c \<Longrightarrow> recording (run s cs)"
  by (induction cs arbitrary: s) (simp_all add: step_keeps_recording)

lemma enters_recording_step: "enters_recording s c \<Longrightarrow> recording (step s c)"
proof (cases c)
  case (Start e)
  assume "enters_recording s c"
  with Start have "fst (start_recording_sync s e)" by simp
  from start_succeeds [OF this] Start show ?thesis by auto
qed simp_all

text \<open>
  Claim C1. A call of \<open>start_recording_sync\<close> made while the tracker is recording returns
  \<open>False\<close> and leaves every attribute, the log files and the listeners as they were.
  Hence, in any sequence of calls, two starts that both enter Recording have a stop call
  between them.
\<close>

theorem no_double_start:
  "(recording s \<longrightarrow> start_recording_sync s e = (False, s)) \<and>
   (enters_recording (run s0 pre) c1 \<and> enters_recording (run s0 (pre @ c1 # mid)) c2
      \<longrightarrow> (\<exists>c\<in>set mid. is_stop c))"
proof (intro conjI impI)
  assume "recording s"
  then show "start_recording_sync s e = (False, s)" by (rule start_when_recording)
next
  assume a: "enters_recording (run s0 pre) c1 \<and> enters_recording (run s0 (pre @ c1 # mid)) c2"
  show "\<exists>c\<in>set mid. is_stop c"
  proof (rule ccontr)
    assume "\<not> (\<exists>c\<in>set mid. is_stop c)"
    then have nostop: "\<forall>c\<in>set mid. \<not> is_stop c" by simp
    from a have "recording (step (run s0 pre) c1)" by (simp add: enters_recording_step)
    then have "recording (run (step (run s0 pre) c1) mid)"
      using nostop by (rule run_keeps_recording)
    then have r: "recording (run s0 (pre @ c1 # mid))" by (simp add: run_append)
    from a have "enters_recording (run s0 (pre @ c1 # mid)) c2" by simp
    with r show False
      by (cases c2) (simp_all add: start_when_recording)
  qed
qed

theorem no_double_start_witness:
  "recording demo_recording \<and>
   enters_recording (run demo_tracker []) (Start demo_start) \<and>
   enters_recording (run demo_tracker ([] @ Start demo_start # [Stop demo_stop]))
     (Start demo_start) \<and>
   start_recording_sync demo_recording demo_start = (False, demo_recording) \<and>
   (\<exists>c\<in>set [Stop demo_stop]. is_stop c)"
proof -
  have h1: "recording demo_recording" by (rule demo_recording_on)
  have h2: "enters_recording (run demo_tracker []) (Start demo_start)"
    by (simp add: demo_start_ok)
  have h3: "enters_recording (run demo_tracker ([] @ Start demo_start # [Stop demo_stop]))
     (Start demo_start)"
    using demo_restart_ok by (simp add: demo_recording_def)
  from no_double_start [of demo_recording demo_start demo_tracker "[]" "Start demo_start"
      "[Stop demo_stop]" "Start demo_start"] h1 h2 h3
  show ?thesis by blast
qed

section \<open>The log of a whole session\<close>


text \<open>The file of a session that is stopped, whatever the flushes of its inputs met.\<close>

lemma session_log:
  assumes "fst (start_recording_sync s e)" and "start_perf e \<noteq> 0"
    and "\<forall>c\<in>set es. \<not> is_stop c" and "write_ok (stop_io t)"
  shows "\<exists>first mids end.
           disk (run s (Start e # es @ [Stop t])) (log_path s e) = Some (first # mids @ [end]) \<and>
           closes (run s (Start e # es @ [Stop t])) = closes s @ [log_path s e] \<and>
           event_type first = ''SessionStart'' \<and> event_type end = ''SessionEnd'' \<and>
           list_all is_input_entry mids"
proof -
  let ?s2 = "run s (Start e # es)"
  from start_enters_session [OF assms(1,2)] obtain first where
    f: "event_type first = ''SessionStart''"
       "in_session (log_path s e) first (closes s) (snd (start_recording_sync s e)) []"
    by blast
  from layout_run [OF in_session_layout [OF f(2)] assms(3)] obtain mids where
    i: "session_layout (log_path s e) first (closes s) ?s2 mids"
    by auto
  from stop_ends_layout [OF i assms(4)] obtain end' where
    e: "disk (stop_recording ?s2 t) (log_path s e) = Some (first # mids @ [end'])"
       "event_type end' = ''SessionEnd''"
       "closes (stop_recording ?s2 t) = closes s @ [log_path s e]"
    by blast
  have r: "run s (Start e # es @ [Stop t]) = stop_recording ?s2 t"
    by (simp add: run_append)
  from i have "list_all is_input_entry mids" by (simp add: session_layout_def)
  with f(1) e show ?thesis unfolding r by blast
qed

text \<open>The same when every flush succeeded: the counters written at the end count the
  entries in between.\<close>

lemma session_log_counted:
  assumes "fst (start_recording_sync s e)" and "start_perf e \<noteq> 0"
    and "\<forall>c\<in>set es. \<not> is_stop c \<and> cmd_write_ok c" and "write_ok (stop_io t)"
  shows "\<exists>first mids end.
           disk (run s (Start e # es @ [Stop t])) (log_path s e) = Some (first # mids @ [end]) \<and>
           field ''total_events'' end = Some (JInt (int (length mids))) \<and>
           field ''mouse_events'' end = Some (JInt (int (length (filter is_mouse_entry mids)))) \<and>
           field ''keyboard_events'' end =
             Some (JInt (int (length (filter is_keyboard_entry mids)))) \<and>
           field ''gamepad_events'' end =
             Some (JInt (int (length (filter is_gamepad_entry mids))))"
proof -
  let ?s2 = "run s (Start e # es)"
  from start_enters_session [OF assms(1,2)] obtain first where
    f: "in_session (log_path s e) first (closes s) (snd (start_recording_sync s e)) []"
    by blast
  from in_session_run [OF f assms(3)] obtain mids where
    i: "in_session (log_path s e) first (closes s) ?s2 mids"
    by auto
  from stop_ends_layout [OF in_session_layout [OF i] assms(4)] obtain end' where
    e: "disk (stop_recording ?s2 t) (log_path s e) = Some (first # mids @ [end'])"
       "details end' = session_end ?s2 t"
    by blast
  have r: "run s (Start e # es @ [Stop t]) = stop_recording ?s2 t"
    by (simp add: run_append)
  from i have c:
    "event_count ?s2 = int (length mids)"
    "mouse_count ?s2 = int (length (filter is_mouse_entry mids))"
    "keyboard_count ?s2 = int (length (filter is_keyboard_entry mids))"
    "gamepad_count ?s2 = int (length (filter is_gamepad_entry mids))"
    by (simp_all add: in_session_def)
  have "field ''total_events'' end' = Some (JInt (int (length mids)))"
    "field ''mouse_events'' end' = Some (JInt (int (length (filter is_mouse_entry mids))))"
    "field ''keyboard_events'' end' = Some (JInt (int (length (filter is_keyboard_entry mids))))"
    "field ''gamepad_events'' end' = Some (JInt (int (length (filter is_gamepad_entry mids))))"
    unfolding field_def e(2) session_end_def using c by simp_all
  with e(1) show ?thesis unfolding r by blast
qed

lemma session_log_silent:
  assumes "fst (start_recording_sync s e)" and "start_perf e = 0"
    and "\<forall>c\<in>set es. \<not> is_stop c"
  shows "disk (run s (Start e # es @ [Stop t])) (log_path s e) = Some []"
proof -
  have "silent_session (log_path s e) (run s (Start e # es))"
    using silent_run [OF start_silent [OF assms(1,2)] assms(3)] by simp
  from stop_silent [OF this, of t] show ?thesis by (simp add: run_append)
qed

text \<open>A key press whose flush fails, then a key release whose flush succeeds: both
  entries are in the file of the stopped session and the counters in its last entry count
  one. A session started on a clock that reads zero: the start returns \<open>True\<close> and the
  file of the stopped session is empty. A session whose stop fails to flush its entry: the
  file does not end with a \<open>SessionEnd\<close> entry.\<close>

theorem failed_flush_is_written_uncounted:
  "map event_type
     (the (disk (run demo_tracker (Start demo_start # demo_lossy @ [Stop demo_stop])) demo_path)) =
     [''SessionStart'', ''KeyDown'', ''KeyUp'', ''SessionEnd''] \<and>
   field ''total_events''
     (last (the (disk (run demo_tracker (Start demo_start # demo_lossy @ [Stop demo_stop]))
                   demo_path))) = Some (JInt 1) \<and>
   field ''keyboard_events''
     (last (the (disk (run demo_tracker (Start demo_start # demo_lossy @ [Stop demo_stop]))
                   demo_path))) = Some (JInt 1) \<and>
   fst (start_recording_sync demo_tracker demo_zero_clock) \<and>
   disk (run demo_tracker (Start demo_zero_clock # demo_inputs @ [Stop demo_stop])) demo_path =
     Some [] \<and>
   map event_type
     (the (disk (run demo_tracker (Start demo_start # demo_inputs @ [Stop demo_stop_fail]))
             demo_path)) =
     [''SessionStart'', ''MouseDelta'', ''KeyDown'']"
  by (simp add: demo_eval demo_lossy_def demo_zero_clock_def demo_stop_fail_def demo_path_def
      field_def)

text \<open>
  Claim C2, amended. A session is started successfully, receives any calls other than a
  stop, and is stopped with a successful write. If the monotonic clock read zero at the
  start, its log file stays empty. Otherwise the file holds a \<open>SessionStart\<close> entry first
  and a \<open>SessionEnd\<close> entry last, with input entries between them; and when no flush
  failed during the session, the \<open>total_events\<close>, \<open>mouse_events\<close>,
  \<open>keyboard_events\<close> and \<open>gamepad_events\<close> fields of the last entry are the number of
  entries in between, in total and for each category.
\<close>

theorem session_end_counts:
  assumes "fst (start_recording_sync s e)" and "\<forall>c\<in>set es. \<not> is_stop c"
    and "write_ok (stop_io t)"
  shows "if start_perf e = 0
         then disk (run s (Start e # es @ [Stop t])) (log_path s e) = Some []
         else (\<exists>first mids end.
           disk (run s (Start e # es @ [Stop t])) (log_path s e) = Some (first # mids @ [end]) \<and>
           event_type first = ''SessionStart'' \<and> event_type end = ''SessionEnd'' \<and>
           list_all is_input_entry mids \<and>
           ((\<forall>c\<in>set es. cmd_write_ok c) \<longrightarrow>
              field ''total_events'' end = Some (JInt (int (length mids))) \<and>
              field ''mouse_events'' end =
                Some (JInt (int (length (filter is_mouse_entry mids)))) \<and>
              field ''keyboard_events'' end =
                Some (JInt (int (length (filter is_keyboard_entry mids)))) \<and>
              field ''gamepad_events'' end =
                Some (JInt (int (length (filter is_gamepad_entry mids))))))"
proof (cases "start_perf e = 0")
  case True
  with session_log_silent [OF assms(1) True assms(2), of t] show ?thesis by simp
next
  case False
  let ?d = "disk (run s (Start e # es @ [Stop t])) (log_path s e)"
  from session_log [OF assms(1) False assms(2,3)] obtain first mids end' where
    l: "?d = Some (first # mids @ [end'])"
       "event_type first = ''SessionStart''" "event_type end' = ''SessionEnd''"
       "list_all is_input_entry mids"
    by blast
  have "field ''total_events'' end' = Some (JInt (int (length mids))) \<and>
        field ''mouse_events'' end' = Some (JInt (int (length (filter is_mouse_entry mids)))) \<and>
        field ''keyboard_events'' end' =
          Some (JInt (int (length (filter is_keyboard_entry mids)))) \<and>
        field ''gamepad_events'' end' =
          Some (JInt (int (length (filter is_gamepad_entry mids))))"
    if w: "\<forall>c\<in>set es. cmd_write_ok c"
  proof -
    from assms(2) w have a: "\<forall>c\<in>set es. \<not> is_stop c \<and> cmd_write_ok c" by simp
    from session_log_counted [OF assms(1) False a assms(3)] obtain f m e' where
      c: "?d = Some (f # m @ [e'])"
         "field ''total_events'' e' = Some (JInt (int (length m)))"
         "field ''mouse_events'' e' = Some (JInt (int (length (filter is_mouse_entry m))))"
         "field ''keyboard_events'' e' = Some (JInt (int (length (filter is_keyboard_entry m))))"
         "field ''gamepad_events'' e' = Some (JInt (int (length (filter is_gamepad_entry m))))"
      by blast
    from l(1) c(1) have "m = mids" "e' = end'" by simp_all
    with c show ?thesis by simp
  qed
  with l False show ?thesis
    by (simp only: if_False) (intro exI [of _ first] exI [of _ mids] exI [of _ end'], simp)
qed

theorem session_end_counts_witness:
  "fst (start_recording_sync demo_tracker demo_start) \<and>
   fst (start_recording_sync demo_tracker demo_zero_clock) \<and>
   list_all (\<lambda>c. \<not> is_stop c) demo_inputs \<and> list_all cmd_write_ok demo_inputs \<and>
   write_ok (stop_io demo_stop) \<and>
   disk (run demo_tracker (Start demo_zero_clock # demo_inputs @ [Stop demo_stop]))
     (log_path demo_tracker demo_zero_clock) = Some [] \<and>
   (\<exists>first mids end.
      disk (run demo_tracker (Start demo_start # demo_inputs @ [Stop demo_stop]))
        (log_path demo_tracker demo_start) = Some (first # mids @ [end]) \<and>
      event_type first = ''SessionStart'' \<and> event_type end = ''SessionEnd'' \<and>
      list_all is_input_entry mids \<and>
      field ''total_events'' end = Some (JInt (int (length mids))) \<and>
      field ''mouse_events'' end = Some (JInt (int (length (filter is_mouse_entry mids)))) \<and>
      field ''keyboard_events'' end =
        Some (JInt (int (length (filter is_keyboard_entry mids)))) \<and>
      field ''gamepad_events'' end =
        Some (JInt (int (length (filter is_gamepad_entry mids)))))"
proof -
  have h0: "fst (start_recording_sync demo_tracker demo_zero_clock)"
    by (simp add: demo_eval demo_zero_clock_def)
  have z: "start_perf demo_zero_clock = 0" by (simp add: demo_zero_clock_def)
  have h2: "start_perf demo_start \<noteq> 0" by (simp add: demo_start_def)
  have h4: "write_ok (stop_io demo_stop)" by (simp add: demo_stop_def io_at_def)
  from session_end_counts [OF h0 demo_inputs_no_stop h4] z
  have a: "disk (run demo_tracker (Start demo_zero_clock # demo_inputs @ [Stop demo_stop]))
     (log_path demo_tracker demo_zero_clock) = Some []"
    by simp
  from session_end_counts [OF demo_start_ok demo_inputs_no_stop h4] h2 demo_inputs_written
  have b: "\<exists>first mids end.
      disk (run demo_tracker (Start demo_start # demo_inputs @ [Stop demo_stop]))
        (log_path demo_tracker demo_start) = Some (first # mids @ [end]) \<and>
      event_type first = ''SessionStart'' \<and> event_type end = ''SessionEnd'' \<and>
      list_all is_input_entry mids \<and>
      field ''total_events'' end = Some (JInt (int (length mids))) \<and>
      field ''mouse_events'' end = Some (JInt (int (length (filter is_mouse_entry mids)))) \<and>
      field ''keyboard_events'' end =
        Some (JInt (int (length (filter is_keyboard_entry mids)))) \<and>
      field ''gamepad_events'' end =
        Some (JInt (int (length (filter is_gamepad_entry mids))))"
    by simp
  from a b h0 h4 demo_start_ok demo_inputs_no_stop demo_inputs_written
  show ?thesis by (simp only: list_all_iff simp_thms)
qed



section \<open>Edges and failed polls of the monitor loop\<close>

lemma calls_append: "calls (xs @ ys) = calls xs @ calls ys"
  by (simp add: calls_def)

lemma monitor_from_step:
  "monitor_from l ((True, p) # rest) =
     (fst (monitor_from (fst (monitor_turn l p)) rest),
      snd (monitor_turn l p) @ snd (monitor_from (fst (monitor_turn l p)) rest))"
  by (simp add: Let_def split: prod.splits)

lemma monitor_polled:
  "fst (monitor_from l (polled bs)) = last (l # bs) \<and>
   calls (snd (monitor_from l (polled bs))) = edges l bs"
proof (induction bs arbitrary: l)
  case Nil
  show ?case by (simp add: polled_def calls_def)
next
  case (Cons b bs)
  have p: "polled (b # bs) = (True, PollOk b) # polled bs" by (simp add: polled_def)
  have t: "fst (monitor_turn l (PollOk b)) = b" by auto
  show ?case
    unfolding p monitor_from_step t calls_append
    using Cons.IH [of b] by (auto simp add: calls_def)
qed

lemma edges_stutter: "edges l (replicate n l @ bs) = edges l bs"
  by (induction n) simp_all

lemma edges_pulse:
  "edges False (replicate a False @ replicate (Suc b) True @ replicate (Suc c) False) =
     [CallStart, CallStop]"
proof -
  have "edges False (replicate a False @ replicate (Suc b) True @ replicate (Suc c) False) =
        edges False (replicate (Suc b) True @ replicate (Suc c) False)"
    by (rule edges_stutter)
  also have "\<dots> = CallStart # edges True (replicate b True @ replicate (Suc c) False)"
    by simp
  also have "edges True (replicate b True @ replicate (Suc c) False) =
        edges True (replicate (Suc c) False)"
    by (rule edges_stutter)
  also have "\<dots> = CallStop # edges False (replicate c False @ [])" by simp
  also have "edges False (replicate c False @ []) = edges False []" by (rule edges_stutter)
  finally show ?thesis by simp
qed

text \<open>
  Claim C4. Over any sequence of successful polls the monitor loop calls
  \<open>start_recording_sync\<close> exactly at the changes of the polled state from false to true
  and \<open>stop_recording\<close> exactly at the changes from true to false, each state being
  compared with \<open>last_recording_state\<close>, which ends as the last polled state. The polls
  false, false, true, true, false give one start followed by one stop, and so does any
  number of polls of each of the three phases.
\<close>

theorem monitor_edges:
  "calls (snd (monitor_from l (polled bs))) = edges l bs \<and>
   fst (monitor_from l (polled bs)) = last (l # bs) \<and>
   calls (snd (obs_monitor_loop (polled [False, False, True, True, False]))) =
     [CallStart, CallStop] \<and>
   calls (snd (obs_monitor_loop
            (polled (replicate a False @ replicate (Suc b) True @ replicate (Suc c) False)))) =
     [CallStart, CallStop]"
proof (intro conjI)
  show "calls (snd (monitor_from l (polled bs))) = edges l bs"
    by (simp add: monitor_polled)
  show "fst (monitor_from l (polled bs)) = last (l # bs)"
    using monitor_polled [of l bs] by blast
  show "calls (snd (obs_monitor_loop (polled [False, False, True, True, False]))) =
     [CallStart, CallStop]"
    unfolding obs_monitor_loop_def by (simp add: monitor_polled)
  show "calls (snd (obs_monitor_loop
            (polled (replicate a False @ replicate (Suc b) True @ replicate (Suc c) False)))) =
     [CallStart, CallStop]"
    unfolding obs_monitor_loop_def by (simp only: monitor_polled edges_pulse)
qed

theorem monitor_edges_witness:
  "calls (snd (monitor_from True (polled [True, False, False, True]))) = [CallStop, CallStart] \<and>
   fst (monitor_from True (polled [True, False, False, True])) = True \<and>
   snd (obs_monitor_loop (polled [False, False, True, True, False])) =
     [Sleep (1 / 2), Sleep (1 / 2), CallStart, Sleep (1 / 2), Sleep (1 / 2), CallStop,
      Sleep (1 / 2)] \<and>
   calls (snd (obs_monitor_loop
            (polled (replicate 3 False @ replicate (Suc 0) True @ replicate (Suc 4) False)))) =
     [CallStart, CallStop]"
proof -
  have e: "snd (obs_monitor_loop (polled [False, False, True, True, False])) =
     [Sleep (1 / 2), Sleep (1 / 2), CallStart, Sleep (1 / 2), Sleep (1 / 2), CallStop,
      Sleep (1 / 2)]"
    by (simp add: obs_monitor_loop_def polled_def)
  from monitor_edges [of True "[True, False, False, True]" 3 0 4] e
  show ?thesis by simp
qed

lemma monitor_skips_failures:
  "fst (monitor_from l (map (Pair True) ps)) =
     fst (monitor_from l (map (Pair True) (filter (\<lambda>p. p \<noteq> PollFail) ps))) \<and>
   calls (snd (monitor_from l (map (Pair True) ps))) =
     calls (snd (monitor_from l (map (Pair True) (filter (\<lambda>p. p \<noteq> PollFail) ps))))"
proof (induction ps arbitrary: l)
  case Nil
  show ?case by simp
next
  case (Cons p ps)
  show ?case
  proof (cases "p = PollFail")
    case True
    have "monitor_from l (map (Pair True) (p # ps)) =
          (fst (monitor_from l (map (Pair True) ps)),
           Sleep 2 # snd (monitor_from l (map (Pair True) ps)))"
      using True by (simp only: list.map monitor_from_step) simp
    with True Cons.IH [of l] show ?thesis by (simp add: calls_def)
  next
    case False
    then have f: "filter (\<lambda>p. p \<noteq> PollFail) (p # ps) = p # filter (\<lambda>p. p \<noteq> PollFail) ps"
      by simp
    show ?thesis
      unfolding f list.map monitor_from_step
      using Cons.IH [of "fst (monitor_turn l p)"] by (simp add: calls_append)
  qed
qed

text \<open>
  Claim C8. A turn whose status request fails leaves \<open>last_recording_state\<close> as it was,
  calls neither start nor stop, and sleeps 2 seconds, longer than the half second every
  turn with a successful poll sleeps; the sleep of a turn depends on that turn's poll only,
  so the half second is back with the next successful poll. Over a whole run the failed
  polls change neither the calls made nor the final \<open>last_recording_state\<close>.
\<close>

theorem poll_failure_backoff:
  "monitor_turn l PollFail = (l, [Sleep 2]) \<and>
   last (snd (monitor_turn l (PollOk b))) = Sleep (1 / 2) \<and>
   (1 / 2 :: rat) < 2 \<and>
   fst (monitor_from l (map (Pair True) ps)) =
     fst (monitor_from l (map (Pair True) (filter (\<lambda>p. p \<noteq> PollFail) ps))) \<and>
   calls (snd (monitor_from l (map (Pair True) ps))) =
     calls (snd (monitor_from l (map (Pair True) (filter (\<lambda>p. p \<noteq> PollFail) ps))))"
  using monitor_skips_failures [of l ps] by simp

theorem poll_failure_backoff_witness:
  "monitor_turn True PollFail = (True, [Sleep 2]) \<and>
   last (snd (monitor_turn True (PollOk False))) = Sleep (1 / 2) \<and>
   snd (monitor_from False (map (Pair True) [PollOk True, PollFail, PollFail, PollOk True,
          PollOk False])) =
     [CallStart, Sleep (1 / 2), Sleep 2, Sleep 2, Sleep (1 / 2), CallStop, Sleep (1 / 2)] \<and>
   fst (monitor_from False (map (Pair True) [PollOk True, PollFail, PollFail, PollOk True,
          PollOk False])) = False \<and>
   calls (snd (monitor_from False (map (Pair True) [PollOk True, PollFail, PollFail, PollOk True,
          PollOk False]))) =
     calls (snd (monitor_from False (map (Pair True) [PollOk True, PollOk True, PollOk False])))"
proof -
  have e: "snd (monitor_from False (map (Pair True) [PollOk True, PollFail, PollFail, PollOk True,
          PollOk False])) =
     [CallStart, Sleep (1 / 2), Sleep 2, Sleep 2, Sleep (1 / 2), CallStop, Sleep (1 / 2)]"
    by simp
  have f: "fst (monitor_from False (map (Pair True) [PollOk True, PollFail, PollFail, PollOk True,
          PollOk False])) = False"
    by simp
  from poll_failure_backoff [of True False
      "[PollOk True, PollFail, PollFail, PollOk True, PollOk False]"] e f
  show ?thesis by (simp add: calls_def)
qed

section \<open>Mouse moves\<close>







section \<open>The first position of a session\<close>

lemma start_resets_pos:
  assumes "fst (start_recording_sync s e)"
  shows "recording (snd (start_recording_sync s e)) \<and>
         last_mouse_pos (snd (start_recording_sync s e)) = None"
proof -
  from start_succeeds [OF assms] obtain s4 s5 s6 where
    a: "s5 = snd (arm_listeners (reset_counters s4) e)" and
    g: "s6 = s5 \<or> s6 = snd (start_tracking s5 (gp e))" and
    f: "snd (start_recording_sync s e) = s6\<lparr>recording := True\<rparr>"
    by blast
  have "last_mouse_pos s5 = None" by (simp add: a)
  with g have "last_mouse_pos s6 = None" by auto
  then show ?thesis by (simp add: f)
qed

lemma step_keeps_pos:
  "recording s \<Longrightarrow> \<not> is_stop c \<Longrightarrow> \<not> is_mouse_move c \<Longrightarrow>
   last_mouse_pos (step s c) = last_mouse_pos s"
  by (cases c)
     (simp_all add: start_when_recording on_mouse_click_def on_key_press_def
        on_key_release_def log_gamepad_event_def)

lemma run_keeps_pos:
  "recording s \<Longrightarrow> \<forall>c\<in>set cs. \<not> is_stop c \<and> \<not> is_mouse_move c \<Longrightarrow>
   recording (run s cs) \<and> last_mouse_pos (run s cs) = last_mouse_pos s"
proof (induction cs arbitrary: s)
  case Nil
  then show ?case by simp
next
  case (Cons c cs)
  then have "recording (step s c)" "last_mouse_pos (step s c) = last_mouse_pos s"
    by (simp_all add: step_keeps_recording step_keeps_pos)
  with Cons.IH [of "step s c"] Cons.prems show ?case by simp
qed

text \<open>
  Claim C10. In every session the first raw mouse position handed to \<open>on_mouse_move\<close>
  after a successful start, whatever its coordinates, whatever the position last seen in
  an earlier session and whatever other input came in between, writes nothing: the
  handler returns with the tracker unchanged except that \<open>last_mouse_pos\<close> now holds that
  position.
\<close>

theorem first_move_seeds:
  assumes "fst (start_recording_sync s e)"
    and "\<forall>c\<in>set es. \<not> is_stop c \<and> \<not> is_mouse_move c"
  shows "on_mouse_move (run s (Start e # es)) x y env =
           (Returned (), (run s (Start e # es))\<lparr>last_mouse_pos := Some (x, y)\<rparr>)"
proof -
  from start_resets_pos [OF assms(1)] have
    "recording (step s (Start e))" "last_mouse_pos (step s (Start e)) = None"
    by simp_all
  with run_keeps_pos [of "step s (Start e)" es] assms(2) have
    "recording (run s (Start e # es))" "last_mouse_pos (run s (Start e # es)) = None"
    by simp_all
  then show ?thesis by (rule move_seeds)
qed

theorem first_move_seeds_witness:
  "last_mouse_pos demo_second = Some (100, 100) \<and>
   fst (start_recording_sync demo_second demo_start) \<and>
   list_all (\<lambda>c. \<not> is_stop c \<and> \<not> is_mouse_move c) [KeyPress demo_key (io_at 2 True)] \<and>
   on_mouse_move (run demo_second (Start demo_start # [KeyPress demo_key (io_at 2 True)]))
       5 7 (io_at 3 True) =
     (Returned (),
      (run demo_second (Start demo_start # [KeyPress demo_key (io_at 2 True)]))
        \<lparr>last_mouse_pos := Some (5, 7)\<rparr>)"
proof -
  have h0: "last_mouse_pos demo_second = Some (100, 100)"
    by (simp add: demo_second_def demo_eval)
  have h1: "fst (start_recording_sync demo_second demo_start)"
    by (simp add: demo_second_def demo_eval)
  have h2: "\<forall>c\<in>set [KeyPress demo_key (io_at 2 True)]. \<not> is_stop c \<and> \<not> is_mouse_move c"
    by simp
  from first_move_seeds [OF h1 h2, of 5 7 "io_at 3 True"] h0 h1
  show ?thesis by simp
qed

section \<open>A start that fails\<close>

lemma arm_listeners_ok:
  "fst (arm_listeners s e) =
     (pynput_available s \<longrightarrow>
        mouse_ctor_ok e \<and> keyboard_ctor_ok e \<and> mouse_start_ok e \<and> keyboard_start_ok e)"
  by (simp add: arm_listeners_def Let_def)

lemma arm_listeners_running:
  "running (snd (arm_listeners s e)) =
     running s @
     (if pynput_available s \<and> mouse_ctor_ok e \<and> keyboard_ctor_ok e \<and> mouse_start_ok e
      then (next_obj s, MouseSrc) #
           (if keyboard_start_ok e then [(Suc (next_obj s), KeyboardSrc)] else [])
      else [])"
  by (simp add: arm_listeners_def Let_def)

lemma start_tracking_raises:
  "fst (start_tracking s g) = Raised RuntimeError \<longleftrightarrow> pygame_ready s \<and> g = GpThreadError"
  by (simp add: start_tracking_def connect_gamepad_def Let_def split: gp_connect.splits)

lemma start_tracking_running:
  "\<exists>armed. running (snd (start_tracking s g)) = running s @ armed"
  by (simp add: start_tracking_def connect_gamepad_def Let_def split: gp_connect.splits)

lemma start_tracking_failed:
  "pygame_ready s \<Longrightarrow>
   start_tracking s GpThreadError = (Raised RuntimeError, s\<lparr>gp_joystick := True, gp_tracking := True\<rparr>)"
  by (simp add: start_tracking_def connect_gamepad_def Let_def)

lemma log_event_settings [simp]:
  "next_obj (snd (log_event s ty d env)) = next_obj s"
  "gamepad_enabled (snd (log_event s ty d env)) = gamepad_enabled s"
  "pygame_ready (snd (log_event s ty d env)) = pygame_ready s"
  by (simp_all add: log_event_def bump_counters_def flush_file_def Let_def split: option.splits)

lemma metadata_written:
  "fst (log_event (opened s e) ''SessionStart'' d (start_io e)) = Returned () \<longleftrightarrow>
     (start_perf e \<noteq> 0 \<longrightarrow> write_ok (start_io e))"
  by (simp add: log_event_def Let_def)

text \<open>A start in which the keyboard listener fails to start returns \<open>False\<close> and
  leaves the mouse listener, started just before, running.\<close>

theorem keyboard_start_failure_leaves_mouse_armed:
  "fst (start_recording_sync demo_tracker demo_kbd_fail) = False \<and>
   running (snd (start_recording_sync demo_tracker demo_kbd_fail)) = [(0, MouseSrc)]"
  by (simp add: demo_kbd_fail_def demo_eval)

text \<open>
  Claim C3, amended. From an idle tracker \<open>start_recording_sync\<close> returns \<open>True\<close>
  exactly when the log file opens, the metadata entry is written (when there is one to
  write), with pynput present both listeners are constructed and started, and the gamepad
  thread, when there is one to start, starts. When it returns \<open>False\<close> the tracker is
  still not recording. Nothing is disarmed: the sources running before the call are
  running after it, and with them those the call armed before the failing step. These are
  none when the open, the metadata write, a listener constructor or the start of the mouse
  listener fails; the mouse listener when the start of the keyboard listener fails; both
  listeners when the gamepad thread fails to start. When the log file cannot be opened the
  call changes \<open>current_log_path\<close> only.
\<close>

theorem start_failure:
  assumes "\<not> recording s"
  shows "fst (start_recording_sync s e) =
           (open_ok e \<and> (start_perf e \<noteq> 0 \<longrightarrow> write_ok (start_io e)) \<and>
            (pynput_available s \<longrightarrow>
               mouse_ctor_ok e \<and> keyboard_ctor_ok e \<and> mouse_start_ok e \<and> keyboard_start_ok e) \<and>
            \<not> (gamepad_enabled s \<and> pygame_ready s \<and> gp e = GpThreadError)) \<and>
         (\<not> fst (start_recording_sync s e) \<longrightarrow> \<not> recording (snd (start_recording_sync s e))) \<and>
         (\<exists>armed. running (snd (start_recording_sync s e)) = running s @ armed) \<and>
         (\<not> open_ok e \<longrightarrow>
            start_recording_sync s e = (False, s\<lparr>current_log_path := Some (log_path s e)\<rparr>)) \<and>
         (open_ok e \<and> start_perf e \<noteq> 0 \<and> \<not> write_ok (start_io e) \<longrightarrow>
            running (snd (start_recording_sync s e)) = running s) \<and>
         (open_ok e \<and> (start_perf e \<noteq> 0 \<longrightarrow> write_ok (start_io e)) \<and> pynput_available s \<and>
          (\<not> mouse_ctor_ok e \<or> \<not> keyboard_ctor_ok e \<or> \<not> mouse_start_ok e) \<longrightarrow>
            running (snd (start_recording_sync s e)) = running s) \<and>
         (open_ok e \<and> (start_perf e \<noteq> 0 \<longrightarrow> write_ok (start_io e)) \<and> pynput_available s \<and>
          mouse_ctor_ok e \<and> keyboard_ctor_ok e \<and> mouse_start_ok e \<and> \<not> keyboard_start_ok e \<longrightarrow>
            running (snd (start_recording_sync s e)) = running s @ [(next_obj s, MouseSrc)]) \<and>
         (open_ok e \<and> (start_perf e \<noteq> 0 \<longrightarrow> write_ok (start_io e)) \<and>
          (pynput_available s \<longrightarrow>
             mouse_ctor_ok e \<and> keyboard_ctor_ok e \<and> mouse_start_ok e \<and> keyboard_start_ok e) \<and>
          gamepad_enabled s \<and> pygame_ready s \<and> gp e = GpThreadError \<longrightarrow>
            running (snd (start_recording_sync s e)) =
              running s @
              (if pynput_available s
               then [(next_obj s, MouseSrc), (Suc (next_obj s), KeyboardSrc)] else []) \<and>
            gp_tracking (snd (start_recording_sync s e)))"
proof (cases "open_ok e")
  case False
  with assms show ?thesis by (simp add: start_unfold)
next
  case True
  let ?l = "log_event (opened s e) ''SessionStart'' (session_info (opened s e) e) (start_io e)"
  let ?a = "arm_listeners (reset_counters (snd ?l)) e"
  let ?g = "start_tracking (snd ?a) (gp e)"
  let ?meta = "start_perf e \<noteq> 0 \<longrightarrow> write_ok (start_io e)"
  let ?lis = "pynput_available s \<longrightarrow>
               mouse_ctor_ok e \<and> keyboard_ctor_ok e \<and> mouse_start_ok e \<and> keyboard_start_ok e"
  let ?thr = "gamepad_enabled s \<and> pygame_ready s \<and> gp e = GpThreadError"
  note r = start_result [OF assms True]
  have l: "fst ?l = Returned () \<longleftrightarrow> ?meta" by (rule metadata_written)
  have a: "fst ?a \<longleftrightarrow> ?lis" by (simp add: arm_listeners_ok)
  have ge: "gamepad_enabled (snd ?a) = gamepad_enabled s" by simp
  have g: "fst ?g = Raised RuntimeError \<longleftrightarrow> pygame_ready s \<and> gp e = GpThreadError"
    by (simp add: start_tracking_raises)
  have ra: "running (snd ?a) =
     running s @
     (if pynput_available s \<and> mouse_ctor_ok e \<and> keyboard_ctor_ok e \<and> mouse_start_ok e
      then (next_obj s, MouseSrc) #
           (if keyboard_start_ok e then [(Suc (next_obj s), KeyboardSrc)] else [])
      else [])"
    by (simp add: arm_listeners_running)
  obtain a2 where rg: "running (snd ?g) = running (snd ?a) @ a2"
    using start_tracking_running [of "snd ?a" "gp e"] by auto
  have 1: "fst (start_recording_sync s e) = (open_ok e \<and> ?meta \<and> ?lis \<and> \<not> ?thr)"
    unfolding r Let_def using True l a ge g by auto
  have 2: "\<not> fst (start_recording_sync s e) \<longrightarrow> \<not> recording (snd (start_recording_sync s e))"
    unfolding r Let_def using assms by simp
  have 3: "\<exists>armed. running (snd (start_recording_sync s e)) = running s @ armed"
    unfolding r Let_def using ra rg by simp
  have 5: "running (snd (start_recording_sync s e)) = running s" if "\<not> ?meta"
    unfolding r Let_def using that l by simp
  have 6: "running (snd (start_recording_sync s e)) = running s"
    if "?meta" "pynput_available s" "\<not> mouse_ctor_ok e \<or> \<not> keyboard_ctor_ok e \<or> \<not> mouse_start_ok e"
    unfolding r Let_def using that l a ra by auto
  have 7: "running (snd (start_recording_sync s e)) = running s @ [(next_obj s, MouseSrc)]"
    if "?meta" "pynput_available s" "mouse_ctor_ok e" "keyboard_ctor_ok e" "mouse_start_ok e"
      "\<not> keyboard_start_ok e"
    unfolding r Let_def using that l a ra by simp
  have 8: "running (snd (start_recording_sync s e)) =
              running s @
              (if pynput_available s
               then [(next_obj s, MouseSrc), (Suc (next_obj s), KeyboardSrc)] else []) \<and>
            gp_tracking (snd (start_recording_sync s e))"
    if t: "?meta" "?lis" "?thr"
  proof -
    have pr: "pygame_ready (snd ?a)" using t(3) by simp
    have gf: "?g = (Raised RuntimeError, (snd ?a)\<lparr>gp_joystick := True, gp_tracking := True\<rparr>)"
      using t(3) start_tracking_failed [OF pr] by simp
    have "start_recording_sync s e = (False, (snd ?a)\<lparr>gp_joystick := True, gp_tracking := True\<rparr>)"
      unfolding r Let_def gf using t l a ge by simp
    then show ?thesis using ra t(2) by auto
  qed
  from 1 2 3 5 6 7 8 True show ?thesis by blast
qed

theorem start_failure_witness:
  "\<not> recording demo_tracker \<and>
   start_recording_sync demo_tracker demo_open_fail =
     (False, demo_tracker\<lparr>current_log_path := Some (log_path demo_tracker demo_open_fail)\<rparr>) \<and>
   running (snd (start_recording_sync demo_tracker demo_open_fail)) = [] \<and>
   fst (start_recording_sync demo_tracker demo_kbd_fail) = False \<and>
   recording (snd (start_recording_sync demo_tracker demo_kbd_fail)) = False \<and>
   running (snd (start_recording_sync demo_tracker demo_kbd_fail)) = [(0, MouseSrc)] \<and>
   fst (start_recording_sync demo_tracker demo_thread_fail) = False \<and>
   running (snd (start_recording_sync demo_tracker demo_thread_fail)) =
     [(0, MouseSrc), (Suc 0, KeyboardSrc)] \<and>
   gp_tracking (snd (start_recording_sync demo_tracker demo_thread_fail))"
proof -
  have h: "\<not> recording demo_tracker" by (simp add: demo_tracker_def init_tracker_def)
  have r: "running demo_tracker = []" "next_obj demo_tracker = 0"
    "pynput_available demo_tracker" "gamepad_enabled demo_tracker" "pygame_ready demo_tracker"
    by (simp_all add: demo_tracker_def init_tracker_def)
  have o: "\<not> open_ok demo_open_fail" by (simp add: demo_open_fail_def demo_start_def)
  have k: "open_ok demo_kbd_fail" "start_perf demo_kbd_fail \<noteq> 0" "write_ok (start_io demo_kbd_fail)"
    "mouse_ctor_ok demo_kbd_fail" "keyboard_ctor_ok demo_kbd_fail" "mouse_start_ok demo_kbd_fail"
    "\<not> keyboard_start_ok demo_kbd_fail"
    by (simp_all add: demo_kbd_fail_def demo_start_def io_at_def)
  have t: "open_ok demo_thread_fail" "start_perf demo_thread_fail \<noteq> 0"
    "write_ok (start_io demo_thread_fail)"
    "mouse_ctor_ok demo_thread_fail" "keyboard_ctor_ok demo_thread_fail"
    "mouse_start_ok demo_thread_fail" "keyboard_start_ok demo_thread_fail"
    "gp demo_thread_fail = GpThreadError"
    by (simp_all add: demo_thread_fail_def demo_start_def io_at_def)
  note a = start_failure [OF h, of demo_open_fail]
  note b = start_failure [OF h, of demo_kbd_fail]
  note c = start_failure [OF h, of demo_thread_fail]
  from a o have e: "start_recording_sync demo_tracker demo_open_fail =
     (False, demo_tracker\<lparr>current_log_path := Some (log_path demo_tracker demo_open_fail)\<rparr>)"
    by blast
  from b k r(3) have b1: "fst (start_recording_sync demo_tracker demo_kbd_fail) = False"
    by blast
  with b have b2: "recording (snd (start_recording_sync demo_tracker demo_kbd_fail)) = False"
    by blast
  from b k r(3) have "running (snd (start_recording_sync demo_tracker demo_kbd_fail)) =
      running demo_tracker @ [(next_obj demo_tracker, MouseSrc)]"
    by blast
  then have b3: "running (snd (start_recording_sync demo_tracker demo_kbd_fail)) = [(0, MouseSrc)]"
    using r by simp
  from c t r have c1: "fst (start_recording_sync demo_tracker demo_thread_fail) = False"
    by blast
  from c t r have "running (snd (start_recording_sync demo_tracker demo_thread_fail)) =
              running demo_tracker @
              (if pynput_available demo_tracker
               then [(next_obj demo_tracker, MouseSrc), (Suc (next_obj demo_tracker), KeyboardSrc)]
               else []) \<and>
            gp_tracking (snd (start_recording_sync demo_tracker demo_thread_fail))"
    by blast
  then have c2: "running (snd (start_recording_sync demo_tracker demo_thread_fail)) =
     [(0, MouseSrc), (Suc 0, KeyboardSrc)]"
    "gp_tracking (snd (start_recording_sync demo_tracker demo_thread_fail))"
    using r by simp_all
  from h r(1) b1 b2 b3 c1 c2 show ?thesis unfolding e by simp
qed

section \<open>A write that fails\<close>








end
